theory Spec2Isabelle
  imports Main "HOL-Library.AList" "HOL-Library.Sublist" "HOL-Library.Multiset"
begin

section \<open>ContactPage (src/components/navigation.tsx, lines 139-455)\<close>

subsection \<open>Component state\<close>

text \<open>
  \<^verbatim>\<open>formData\<close> is a JavaScript object. Its own string keys are kept in insertion order,
  and the spread \<^verbatim>\<open>{...prev, [name]: value}\<close> overwrites the value of a key that is
  already there (in place) and appends a key that is new. An association list updated
  with \<open>AList.update\<close> does exactly that; a field is read with \<open>map_of\<close>.
\<close>

type_synonym form_data = "(string \<times> string) list"

definition initialFormData :: form_data where
  "initialFormData =
     [(''name'', ''''), (''email'', ''''), (''subject'', ''''), (''message'', '''')]"

text \<open>The three \<^verbatim>\<open>useState\<close> cells of the component (lines 140-147).\<close>

record contact_state =
  formData :: form_data
  isSubmitting :: bool
  isSubmitted :: bool

text \<open>
  The part of a change event that \<^verbatim>\<open>handleInputChange\<close> reads:
  \<^verbatim>\<open>const { name, value } = e.target\<close>.
\<close>

record change_event =
  target_name :: string
  target_value :: string

text \<open>
  \<^verbatim>\<open>setFormData((prev) => ({ ...prev, [name]: value }))\<close> (lines 149-155). The handler is
  defined on every extension of the state record: whatever else the environment holds is
  not touched.
\<close>

definition handleInputChange ::
  "change_event \<Rightarrow> 'a contact_state_scheme \<Rightarrow> 'a contact_state_scheme" where
  "handleInputChange e st =
     st\<lparr>formData := AList.update (target_name e) (target_value e) (formData st)\<rparr>"

subsection \<open>The timer queue and the asynchronous \<^verbatim>\<open>handleSubmit\<close>\<close>

text \<open>
  \<^verbatim>\<open>handleSubmit\<close> (lines 157-177) is an \<^verbatim>\<open>async\<close> function with one \<^verbatim>\<open>await\<close>. It runs
  in three pieces, each to completion on the single JavaScript thread:
  \<^item> up to the \<^verbatim>\<open>await\<close>: \<^verbatim>\<open>setIsSubmitting(true)\<close> and a timer of 2000 ms whose callback
    resolves the awaited promise;
  \<^item> the rest of the body, resumed when that timer fires: \<^verbatim>\<open>setIsSubmitting(false)\<close>,
    \<^verbatim>\<open>setIsSubmitted(true)\<close> and a second timer of 3000 ms;
  \<^item> the callback of the second timer: \<^verbatim>\<open>setIsSubmitted(false)\<close> and \<^verbatim>\<open>setFormData\<close>
    with the four empty fields.
  The two callbacks that \<^verbatim>\<open>setTimeout\<close> can hold are the constructors of \<open>callback\<close>.
\<close>

datatype callback = ResumeSubmit | ResetForm

text \<open>
  The world of the page: the component state, the clock of the runtime in milliseconds,
  the timers that are pending (due time and callback, in the order of the \<^verbatim>\<open>setTimeout\<close>
  calls), and two ghost fields that only record history: the callbacks that have fired
  (with the time they fired at) and the number of calls of \<^verbatim>\<open>handleSubmit\<close>.
  The model follows one mounted instance of the page. Its clock is logical: a timer
  fires when its due time is reached, before any event that comes later; a browser may
  run a callback late, which moves the times of the log but not the order of the steps.
\<close>

record contact_world = contact_state +
  now :: nat
  timers :: "(nat \<times> callback) list"
  fired :: "(nat \<times> callback) list"
  submissions :: nat

definition initial_world :: contact_world where
  "initial_world =
     \<lparr>formData = initialFormData, isSubmitting = False, isSubmitted = False,
      now = 0, timers = [], fired = [], submissions = 0\<rparr>"

text \<open>Lines 158-162: the synchronous part of \<^verbatim>\<open>handleSubmit\<close>, up to the \<^verbatim>\<open>await\<close>.\<close>

definition handleSubmit :: "contact_world \<Rightarrow> contact_world" where
  "handleSubmit w =
     w\<lparr>isSubmitting := True,
       timers := timers w @ [(now w + 2000, ResumeSubmit)],
       submissions := Suc (submissions w)\<rparr>"

text \<open>Lines 164-176: the body after the \<^verbatim>\<open>await\<close>.\<close>

definition handleSubmit_resumed :: "contact_world \<Rightarrow> contact_world" where
  "handleSubmit_resumed w =
     w\<lparr>isSubmitting := False, isSubmitted := True,
       timers := timers w @ [(now w + 3000, ResetForm)]\<rparr>"

text \<open>Lines 168-176: the callback of the reset timer.\<close>

definition resetForm :: "contact_world \<Rightarrow> contact_world" where
  "resetForm w = w\<lparr>isSubmitted := False, formData := initialFormData\<rparr>"

fun run_callback :: "callback \<Rightarrow> contact_world \<Rightarrow> contact_world" where
  "run_callback ResumeSubmit w = handleSubmit_resumed w"
| "run_callback ResetForm w = resetForm w"

subsection \<open>What the page shows\<close>

text \<open>
  The content of the form card (lines 242-321): the success message when
  \<^verbatim>\<open>isSubmitted\<close> holds, the form otherwise. Of the form the model keeps what depends on
  the state: the four inputs with their \<^verbatim>\<open>name\<close> and \<^verbatim>\<open>value\<close> attributes (a value is
  \<open>None\<close> where the object has no such key, JavaScript's \<^verbatim>\<open>undefined\<close>) and the submit
  button with its \<^verbatim>\<open>disabled\<close> attribute and its label. Static markup and class names
  are left out.
\<close>

datatype submit_button = SubmitButton (disabled: bool) (label: string)

datatype card_content =
    SuccessMessage string string
  | ContactForm "(string \<times> string option) list" submit_button

definition ContactPage_card :: "'a contact_state_scheme \<Rightarrow> card_content" where
  "ContactPage_card st =
     (if isSubmitted st
      then SuccessMessage ''Message Sent Successfully!''
             ''Thank you for reaching out. I'll get back to you soon.''
      else ContactForm
             [(''name'', map_of (formData st) ''name''),
              (''email'', map_of (formData st) ''email''),
              (''subject'', map_of (formData st) ''subject''),
              (''message'', map_of (formData st) ''message'')]
             (SubmitButton (isSubmitting st)
                (if isSubmitting st then ''Sending...'' else ''Send Message'')))"

text \<open>
  The rest of what the page renders from data: the rows of \<^verbatim>\<open>contactInfo\<close> (lines
  179-210 and 335-357; a row is a link when it has an \<^verbatim>\<open>href\<close>, and the link opens a new
  tab when the \<^verbatim>\<open>href\<close> starts with \<^verbatim>\<open>http\<close>) and of \<^verbatim>\<open>availability\<close> (lines 212-216).
  The component declares no parameter.
\<close>

definition contactInfo :: "(string \<times> string \<times> string option) list" where
  "contactInfo =
     [(''Email'', ''nihalnihal8951@gmail.com'', Some ''mailto:nihalnihal8951@gmail.com''),
      (''Phone'', ''+91 8951107072'', Some ''tel:+918951107072''),
      (''Location'', ''Hassan, India'', None),
      (''GitHub'', ''github.com/Nihalht'', Some ''https://github.com/Nihalht''),
      (''LinkedIn'', ''linkedin.com/in/nihal-h-t'', Some ''https://linkedin.com/in/nihal-h-t'')]"

definition availability :: "(string \<times> string) list" where
  "availability =
     [(''Monday - Friday'', ''9:00 AM - 6:00 PM IST''),
      (''Saturday'', ''10:00 AM - 4:00 PM IST''),
      (''Sunday'', ''Available for urgent projects'')]"

datatype info_row =
    InfoLink string string string "string option"
  | InfoText string string

definition startsWith :: "string \<Rightarrow> string \<Rightarrow> bool" where
  "startsWith s p \<longleftrightarrow> take (length p) s = p"

record contact_view =
  form_card :: card_content
  info_rows :: "info_row list"
  schedule_rows :: "(string \<times> string) list"

definition ContactPage :: "'p \<Rightarrow> 'a contact_state_scheme \<Rightarrow> contact_view" where
  "ContactPage props st =
     \<lparr>form_card = ContactPage_card st,
      info_rows =
        map (\<lambda>(label, value, href).
               case href of
                 Some h \<Rightarrow>
                   InfoLink label value h (if startsWith h ''http'' then Some ''_blank'' else None)
               | None \<Rightarrow> InfoText label value) contactInfo,
      schedule_rows = availability\<rparr>"

subsection \<open>The event loop\<close>

text \<open>
  The timer that fires next: the pending timer with the smallest due time, and among
  timers due at the same time the one whose \<^verbatim>\<open>setTimeout\<close> call came first.
\<close>

fun next_timer :: "(nat \<times> callback) list \<Rightarrow> (nat \<times> callback) option" where
  "next_timer [] = None"
| "next_timer (t # ts) =
     (case next_timer ts of
        None \<Rightarrow> Some t
      | Some u \<Rightarrow> if fst u < fst t then Some u else Some t)"

text \<open>
  Firing a timer: the clock is at its due time (or later, if it was overdue), the timer
  leaves the queue, the ghost log records it, and its callback runs. The awaited promise
  is resolved by the timer's callback and the body of \<^verbatim>\<open>handleSubmit\<close> resumes in the
  microtask that follows, before any other event is handled, so both are one step here.
\<close>

definition fire :: "nat \<times> callback \<Rightarrow> contact_world \<Rightarrow> contact_world" where
  "fire t w =
     run_callback (snd t)
       (w\<lparr>now := max (now w) (fst t),
          timers := remove1 t (timers w),
          fired := fired w @ [(max (now w) (fst t), snd t)]\<rparr>)"

text \<open>
  The measure of the event loop: firing \<open>ResumeSubmit\<close> removes a timer of weight 2 and
  adds one of weight 1, firing \<open>ResetForm\<close> removes a timer of weight 1.
\<close>

fun weight :: "nat \<times> callback \<Rightarrow> nat" where
  "weight (d, ResumeSubmit) = 2"
| "weight (d, ResetForm) = 1"

lemma next_timer_mem: "next_timer ts = Some t \<Longrightarrow> t \<in> set ts"
  by (induction ts arbitrary: t) (auto split: option.splits if_splits)

lemma weight_remove1:
  "t \<in> set ts \<Longrightarrow> sum_list (map weight (remove1 t ts)) + weight t = sum_list (map weight ts)"
  by (induction ts) auto

lemma weight_fire:
  assumes "t \<in> set (timers w)"
  shows "sum_list (map weight (timers (fire t w))) < sum_list (map weight (timers w))"
proof (cases t)
  case (Pair d cb)
  with weight_remove1[OF assms] show ?thesis
    by (cases cb) (auto simp: fire_def handleSubmit_resumed_def resetForm_def)
qed

text \<open>
  Letting time pass until \<open>t\<close>: every timer due by then fires, in the order of
  \<open>next_timer\<close>, including those that a fired callback schedules; then the clock is \<open>t\<close>.
\<close>

function advance_to :: "nat \<Rightarrow> contact_world \<Rightarrow> contact_world" where
  "advance_to t w =
     (case next_timer (timers w) of
        None \<Rightarrow> w\<lparr>now := max (now w) t\<rparr>
      | Some tm \<Rightarrow>
          if fst tm \<le> t then advance_to t (fire tm w)
          else w\<lparr>now := max (now w) t\<rparr>)"
  by pat_completeness auto
termination
  by (relation "measure (\<lambda>(t, w). sum_list (map weight (timers w)))")
     (auto dest!: next_timer_mem intro: weight_fire)

declare advance_to.simps [simp del]

text \<open>
  What can happen to the page: the user changes the input named \<open>n\<close> to \<open>v\<close>, the user
  submits the form, or \<open>d\<close> milliseconds pass. The page only receives the events of the
  elements it shows: a change event comes from one of the rendered inputs, and a submit
  event comes from the rendered form (line 249) when its submit button is not disabled
  (line 307). The browser refuses more submissions than that (the inputs are
  \<^verbatim>\<open>required\<close>), so the runs of the model include every run of the page.
\<close>

datatype event = Change string string | Submit | Wait nat

fun deliver :: "event \<Rightarrow> contact_world \<Rightarrow> contact_world" where
  "deliver (Change n v) w =
     (case ContactPage_card w of
        ContactForm inputs b \<Rightarrow>
          if n \<in> set (map fst inputs)
          then handleInputChange \<lparr>target_name = n, target_value = v\<rparr> w else w
      | SuccessMessage h p \<Rightarrow> w)"
| "deliver Submit w =
     (case ContactPage_card w of
        ContactForm inputs b \<Rightarrow> if disabled b then w else handleSubmit w
      | SuccessMessage h p \<Rightarrow> w)"
| "deliver (Wait d) w = advance_to (now w + d) w"

definition run :: "event list \<Rightarrow> contact_world \<Rightarrow> contact_world" where
  "run es w = foldl (\<lambda>w e. deliver e w) w es"

text \<open>The time that passes during a list of events.\<close>

fun elapsed :: "event list \<Rightarrow> nat" where
  "elapsed [] = 0"
| "elapsed (Wait d # es) = d + elapsed es"
| "elapsed (e # es) = elapsed es"

subsection \<open>The phases of a submission\<close>

text \<open>
  Three kinds of worlds: the form is idle (no flag set, no timer pending); a submission
  is being sent (\<^verbatim>\<open>isSubmitting\<close>, the timer of the simulated delay pending and due at
  \<open>t\<close>); the success message is showing (\<^verbatim>\<open>isSubmitted\<close>, the reset timer pending and
  due at \<open>t\<close>).
\<close>

definition idle :: "contact_world \<Rightarrow> bool" where
  "idle w \<longleftrightarrow> \<not> isSubmitting w \<and> \<not> isSubmitted w \<and> timers w = []"

definition sending :: "nat \<Rightarrow> contact_world \<Rightarrow> bool" where
  "sending t w \<longleftrightarrow>
     isSubmitting w \<and> \<not> isSubmitted w \<and> timers w = [(t, ResumeSubmit)] \<and> now w < t"

definition showing :: "nat \<Rightarrow> contact_world \<Rightarrow> bool" where
  "showing t w \<longleftrightarrow>
     \<not> isSubmitting w \<and> isSubmitted w \<and> timers w = [(t, ResetForm)] \<and> now w < t"

definition phase_inv :: "contact_world \<Rightarrow> bool" where
  "phase_inv w \<longleftrightarrow> idle w \<or> (\<exists>t. sending t w) \<or> (\<exists>t. showing t w)"

subsection \<open>Accounting for the timers\<close>

text \<open>
  The number of timers with callback \<open>c\<close> in a list, the delay each callback is scheduled
  with (lines 162 and 176), and the invariant of the timer queue: every call of
  \<^verbatim>\<open>handleSubmit\<close> has its delay timer pending or fired, every completed delay has its
  reset timer pending or fired, and every pending timer is due within its delay.
\<close>

definition count_cb :: "callback \<Rightarrow> (nat \<times> callback) list \<Rightarrow> nat" where
  "count_cb c ts = length (filter (\<lambda>t. snd t = c) ts)"

fun timer_delay :: "callback \<Rightarrow> nat" where
  "timer_delay ResumeSubmit = 2000"
| "timer_delay ResetForm = 3000"

definition queue_inv :: "contact_world \<Rightarrow> bool" where
  "queue_inv w \<longleftrightarrow>
     count_cb ResumeSubmit (fired w) + count_cb ResumeSubmit (timers w) = submissions w
   \<and> count_cb ResetForm (fired w) + count_cb ResetForm (timers w) = count_cb ResumeSubmit (fired w)
   \<and> list_all (\<lambda>tm. fst tm \<le> now w + timer_delay (snd tm)) (timers w)"

section \<open>Elements and their handlers\<close>

text \<open>
  A component returns a tree of elements. The model keeps the elements that carry data or
  a handler and leaves out static markup and class names. An \<^verbatim>\<open>onClick\<close> property is a
  function on the state of the runtime, or \<open>None\<close> where the element is given none; a
  click on an element without a handler changes nothing.
\<close>

datatype icon =
    MenuIcon | XIcon | GithubIcon | LinkedinIcon | MailIcon
  | BrainIcon | BlocksIcon | CodeIcon | DatabaseIcon
  | ExternalLinkIcon | AwardIcon | BriefcaseIcon

datatype 's link = Link (href: string) (link_label: string) (link_onClick: "('s \<Rightarrow> 's) option")

datatype 's button =
  Button (variant: string) (button_label: string) (button_onClick: "('s \<Rightarrow> 's) option")

fun click :: "('s \<Rightarrow> 's) option \<Rightarrow> 's \<Rightarrow> 's" where
  "click None s = s"
| "click (Some h) s = h s"

section \<open>Navigation (src/components/navigation.tsx, lines 8-125)\<close>

text \<open>
  The one \<^verbatim>\<open>useState\<close> cell of the component (line 9), initially \<^verbatim>\<open>false\<close>. The setter
  is defined on every extension of the record: it touches nothing else. The handlers are
  closures made by the render, over the value of \<^verbatim>\<open>isOpen\<close> in that render
  (\<^verbatim>\<open>() => setIsOpen(!isOpen)\<close>, line 72; \<^verbatim>\<open>() => setIsOpen(false)\<close>, line 87). The component
  declares no parameter, so the props React calls it with are ignored.
\<close>

record navigation_state =
  isOpen :: bool

definition Navigation_initial :: navigation_state where
  "Navigation_initial = \<lparr>isOpen = False\<rparr>"

definition setIsOpen :: "bool \<Rightarrow> 'a navigation_state_scheme \<Rightarrow> 'a navigation_state_scheme" where
  "setIsOpen v s = s\<lparr>isOpen := v\<rparr>"

definition navItems :: "(string \<times> string) list" where
  "navItems = [(''/'', ''Home''), (''/contact'', ''Contact''), (''/blogs'', ''Blogs'')]"

definition socialLinks :: "'s link list" where
  "socialLinks =
     [Link ''https://github.com/Nihalht'' ''GitHub'' None,
      Link ''https://linkedin.com/in/nihal-h-t'' ''LinkedIn'' None,
      Link ''mailto:nihalnihal8951@gmail.com'' ''Email'' None]"

record 's navigation_view =
  desktop_links :: "'s link list"
  desktop_social :: "'s link list"
  menu_icon :: icon
  menu_button :: "'s button"
  mobile_menu :: "('s link list \<times> 's link list) option"

definition Navigation ::
  "'p \<Rightarrow> 'a navigation_state_scheme \<Rightarrow> 'a navigation_state_scheme navigation_view" where
  "Navigation props s =
     \<lparr>desktop_links = map (\<lambda>item. Link (fst item) (snd item) None) navItems,
      desktop_social = socialLinks,
      menu_icon = (if isOpen s then XIcon else MenuIcon),
      menu_button = Button ''ghost'' ''Toggle menu'' (Some (setIsOpen (\<not> isOpen s))),
      mobile_menu =
        (if isOpen s
         then Some (map (\<lambda>item. Link (fst item) (snd item) (Some (setIsOpen False))) navItems,
                    socialLinks)
         else None)\<rparr>"

section \<open>HomePage (src/unnamed/part_001, lines 23-300)\<close>

text \<open>
  The literal data of the page (lines 24-97). \<^verbatim>\<open>skills\<close> is an object, read with
  \<^verbatim>\<open>Object.entries\<close>, which lists its keys in insertion order: an association list.
  The period of the first education entry holds an en dash, here its three bytes.
\<close>

definition skills :: "(string \<times> string list) list" where
  "skills =
     [(''Programming Languages'', [''Python'', ''C'', ''SQL'', ''Solidity'']),
      (''Data Management'', [''MySQL'', ''PostgreSQL'', ''MongoDB'', ''NoSQL'']),
      (''AI & Machine Learning'',
         [''TensorFlow'', ''PyTorch'', ''scikit-learn'', ''Keras'', ''OpenCV'', ''NLP'']),
      (''Web Development'', [''Django'', ''FastAPI'', ''RESTful APIs'']),
      (''Tools & Platforms'', [''Git/GitHub'', ''Jupyter'', ''Streamlit'']),
      (''Blockchain'', [''Smart Contracts'', ''Web3.js'', ''Ethereum''])]"

record project =
  project_title :: string
  project_year :: string
  project_description :: string
  project_accuracy :: string
  project_icon :: icon

definition projects :: "project list" where
  "projects =
     [\<lparr>project_title = ''AI & Blockchain-Based Student Performance Data Analysis'',
       project_year = ''2025'',
       project_description =
         ''Developed an analytics platform combining machine learning with blockchain ''
         @ ''security, achieving 92% accuracy in performance forecasting. Built a secure ''
         @ ''data pipeline with smart contracts for tamper-proof records.'',
       project_accuracy = ''92%'',
       project_icon = BrainIcon\<rparr>,
      \<lparr>project_title = ''Crop & Fertilizer Prediction Using AI & ML'',
       project_year = ''2024'',
       project_description =
         ''Created an agricultural system with 89% accuracy using Random Forest and ''
         @ ''XGBoost. Integrated weather API and soil data via Flask backend, tailoring ''
         @ ''predictions to specific crop requirements.'',
       project_accuracy = ''89%'',
       project_icon = DatabaseIcon\<rparr>,
      \<lparr>project_title = ''Healthcare AI Diagnostic Assistant'',
       project_year = ''2024'',
       project_description =
         ''Developed a CNN-based model with 94% accuracy for medical image analysis using ''
         @ ''OpenCV. Created FastAPI RESTful API integrated with hospital systems; ''
         @ ''implemented secure authentication and HIPAA-compliant data handling.'',
       project_accuracy = ''94%'',
       project_icon = CodeIcon\<rparr>]"

record experience_entry =
  company :: string
  location :: string
  role :: string
  experience_year :: string
  experience_icon :: icon

definition experience :: "experience_entry list" where
  "experience =
     [\<lparr>company = ''TechCiti Private Limited'', location = ''Bengaluru, India'',
       role = ''Software Development (AI/ML) Intern'', experience_year = ''2024'',
       experience_icon = BriefcaseIcon\<rparr>,
      \<lparr>company = ''10 SECONDS, Remote (NICC)'', location = ''Remote'',
       role = ''Cyber Security Intern'', experience_year = ''2022'',
       experience_icon = BriefcaseIcon\<rparr>]"

record education_entry =
  institution :: string
  degree :: string
  period :: string
  grade :: string
  university :: "string option"

definition education :: "education_entry list" where
  "education =
     [\<lparr>institution = ''Navkis College of Engineering, Hassan'',
       degree = ''Bachelor of Engineering in Artificial Intelligence & Data Science'',
       period = ''2021 '' @ [CHR 0xE2, CHR 0x80, CHR 0x93] @ '' 2025'',
       grade = ''CGPA: 7.75'', university = Some ''VTU''\<rparr>,
      \<lparr>institution = ''Mahesh PU College, Hassan'', degree = ''12th Grade'',
       period = ''2021'', grade = ''72%'', university = None\<rparr>,
      \<lparr>institution = ''SVM English High School, Hassan'', degree = ''10th Grade'',
       period = ''2019'', grade = ''80%'', university = None\<rparr>]"

text \<open>
  The cards the page maps the arrays to (lines 174-296). The title of a skill card holds
  the icon of each of the six comparisons that succeeds (lines 178-183), then the
  category. Of the static part the model keeps the two hero buttons: the link to the
  contact page and the resume button, which is given no handler (lines 121-132). The
  component declares no parameter and calls no hook.
\<close>

definition skill_icons :: "string \<Rightarrow> icon list" where
  "skill_icons category =
     (if category = ''Programming Languages'' then [CodeIcon] else [])
     @ (if category = ''Data Management'' then [DatabaseIcon] else [])
     @ (if category = ''AI & Machine Learning'' then [BrainIcon] else [])
     @ (if category = ''Web Development'' then [ExternalLinkIcon] else [])
     @ (if category = ''Tools & Platforms'' then [AwardIcon] else [])
     @ (if category = ''Blockchain'' then [BlocksIcon] else [])"

record 's home_view =
  hero_link :: "'s link"
  hero_button :: "'s button"
  skill_cards :: "(icon list \<times> string \<times> string list) list"
  project_cards :: "(icon \<times> string \<times> string \<times> string \<times> string) list"
  experience_cards :: "(string \<times> string \<times> string \<times> string) list"
  education_cards :: "(string \<times> string \<times> string \<times> string) list"

definition HomePage :: "'p \<Rightarrow> 's home_view" where
  "HomePage props =
     \<lparr>hero_link = Link ''/contact'' ''Get In Touch'' None,
      hero_button = Button ''outline'' ''Download Resume'' None,
      skill_cards = map (\<lambda>(category, skillList). (skill_icons category, category, skillList)) skills,
      project_cards =
        map (\<lambda>project. (project_icon project, project_year project,
                          project_accuracy project @ '' Accuracy'', project_title project,
                          project_description project)) projects,
      experience_cards =
        map (\<lambda>exp. (role exp, company exp, location exp, experience_year exp)) experience,
      education_cards =
        map (\<lambda>edu. (degree edu, institution edu, period edu, grade edu)) education\<rparr>"

section \<open>Footer (src/components/footer.tsx)\<close>

text \<open>
  A render without data or state: the three navigation links, the three social links and
  the copyright line, as the source writes them.
\<close>

record 's footer_view =
  footer_links :: "'s link list"
  footer_social :: "'s link list"
  footer_line :: string

definition Footer :: "'p \<Rightarrow> 's footer_view" where
  "Footer props =
     \<lparr>footer_links =
        [Link ''/'' ''Home'' None, Link ''/contact'' ''Contact'' None,
         Link ''/blogs'' ''Blogs'' None],
      footer_social = socialLinks,
      footer_line = ''&copy; 2025 Nihal HT. All rights reserved.''\<rparr>"

section \<open>BlogsPage (src/app/blogs/page.tsx)\<close>

subsection \<open>The runtime's \<^verbatim>\<open>Date\<close>, as far as \<^verbatim>\<open>formatDate\<close> uses it\<close>

text \<open>
  \<^verbatim>\<open>formatDate\<close> (lines 100-106) is
  \<^verbatim>\<open>new Date(dateString).toLocaleDateString("en-US", {year: "numeric", month: "long", day: "numeric"})\<close>.
  ECMAScript reads a date-only string \<^verbatim>\<open>YYYY-MM-DD\<close> as midnight UTC of that day, and
  \<^verbatim>\<open>toLocaleDateString\<close>, given no \<^verbatim>\<open>timeZone\<close> option, prints the calendar date of that
  instant in the time zone of the host. The host's zone is a parameter of the model:
  \<open>localTZA h t\<close> is the offset of local time from UTC, in milliseconds, at the instant
  \<open>t\<close> (milliseconds since 1970-01-01 UTC).

  Only the date-only form is modelled (every \<^verbatim>\<open>publishDate\<close> of the page has it): any other
  string is taken as unparsable. Day numbers and calendar dates are converted by the
  usual closed forms for the proleptic Gregorian calendar; the printed year is that of
  the common era.
\<close>

record host =
  localTZA :: "int \<Rightarrow> int"

definition msPerDay :: int where
  "msPerDay = 86400000"

text \<open>
  The number of the day \<open>d\<close> of month \<open>m\<close> of year \<open>y\<close>, counted from 1970-01-01, and
  back. Years are counted from March, in eras of 400 years (146097 days), so that the
  leap day is the last day of a year.
\<close>

definition days_from_era :: "int \<Rightarrow> int \<Rightarrow> int" where
  "days_from_era y' doy =
     (y' div 400) * 146097
     + ((y' mod 400) * 365 + (y' mod 400) div 4 - (y' mod 400) div 100 + doy)
     - 719468"

definition days_from_civil :: "int \<Rightarrow> int \<Rightarrow> int \<Rightarrow> int" where
  "days_from_civil y m d =
     days_from_era (if m \<le> 2 then y - 1 else y)
       ((153 * (if m > 2 then m - 3 else m + 9) + 2) div 5 + d - 1)"

definition civil_from_mp :: "int \<Rightarrow> int \<Rightarrow> int \<Rightarrow> int \<times> int \<times> int" where
  "civil_from_mp y doy mp =
     (if mp < 10 then y else y + 1,
      if mp < 10 then mp + 3 else mp - 9,
      doy - (153 * mp + 2) div 5 + 1)"

definition civil_from_doy :: "int \<Rightarrow> int \<Rightarrow> int \<times> int \<times> int" where
  "civil_from_doy y doy = civil_from_mp y doy ((5 * doy + 2) div 153)"

definition civil_from_yoe :: "int \<Rightarrow> int \<Rightarrow> int \<Rightarrow> int \<times> int \<times> int" where
  "civil_from_yoe era doe yoe =
     civil_from_doy (yoe + era * 400) (doe - (365 * yoe + yoe div 4 - yoe div 100))"

definition civil_from_era :: "int \<Rightarrow> int \<Rightarrow> int \<times> int \<times> int" where
  "civil_from_era era doe =
     civil_from_yoe era doe ((doe - doe div 1460 + doe div 36524 - doe div 146096) div 365)"

definition civil_from_days :: "int \<Rightarrow> int \<times> int \<times> int" where
  "civil_from_days z = civil_from_era ((z + 719468) div 146097) ((z + 719468) mod 146097)"

definition InLeapYear :: "int \<Rightarrow> bool" where
  "InLeapYear y \<longleftrightarrow> y mod 4 = 0 \<and> (y mod 400 = 0 \<or> y mod 100 \<noteq> 0)"

definition DaysInMonth :: "int \<Rightarrow> int \<Rightarrow> int" where
  "DaysInMonth y m =
     (if m = 2 then (if InLeapYear y then 29 else 28)
      else if m \<in> {4, 6, 9, 11} then 30 else 31)"

definition digit :: "char \<Rightarrow> int option" where
  "digit c =
     map_of [(CHR ''0'', 0), (CHR ''1'', 1), (CHR ''2'', 2), (CHR ''3'', 3), (CHR ''4'', 4),
             (CHR ''5'', 5), (CHR ''6'', 6), (CHR ''7'', 7), (CHR ''8'', 8), (CHR ''9'', 9)] c"

fun number :: "char list \<Rightarrow> int option" where
  "number [] = None"
| "number cs = foldl (\<lambda>acc c. case (acc, digit c) of (Some a, Some d) \<Rightarrow> Some (10 * a + d) | _ \<Rightarrow> None)
                 (Some 0) cs"


definition Date_parse :: "string \<Rightarrow> int option" where
  "Date_parse s =
     (if length s = 10 \<and> s ! 4 = CHR ''-'' \<and> s ! 7 = CHR ''-''
      then (case (number (take 4 s), number (take 2 (drop 5 s)), number (drop 8 s)) of
              (Some y, Some m, Some d) \<Rightarrow>
                if 1 \<le> m \<and> m \<le> 12 \<and> 1 \<le> d \<and> d \<le> DaysInMonth y m
                then Some (days_from_civil y m d * msPerDay) else None
            | _ \<Rightarrow> None)
      else None)"

definition LocalTime :: "host \<Rightarrow> int \<Rightarrow> int" where
  "LocalTime h t = t + localTZA h t"

definition monthNames :: "string list" where
  "monthNames =
     [''January'', ''February'', ''March'', ''April'', ''May'', ''June'', ''July'',
      ''August'', ''September'', ''October'', ''November'', ''December'']"

fun decimal :: "nat \<Rightarrow> string" where
  "decimal n =
     (if n < 10 then [''0123456789'' ! n]
      else decimal (n div 10) @ [''0123456789'' ! (n mod 10)])"

declare decimal.simps [simp del]

definition toLocaleDateString :: "host \<Rightarrow> int \<Rightarrow> string" where
  "toLocaleDateString h t =
     (case civil_from_days (LocalTime h t div msPerDay) of
        (y, m, d) \<Rightarrow>
          (if 1 \<le> m \<and> m \<le> 12 then monthNames ! nat (m - 1) else [])
          @ '' '' @ decimal (nat d) @ '', '' @ decimal (nat y))"

definition formatDate :: "host \<Rightarrow> string \<Rightarrow> string" where
  "formatDate h dateString =
     (case Date_parse dateString of
        None \<Rightarrow> ''Invalid Date''
      | Some t \<Rightarrow> toLocaleDateString h t)"

text \<open>A host whose local time is always \<open>minutes\<close> ahead of UTC.\<close>

definition fixed_offset :: "int \<Rightarrow> host" where
  "fixed_offset minutes = \<lparr>localTZA = (\<lambda>t. minutes * 60000)\<rparr>"

subsection \<open>The posts and the page\<close>

text \<open>
  The literal array \<^verbatim>\<open>blogPosts\<close> (lines 21-94); the field \<^verbatim>\<open>id\<close> is \<open>post_id\<close> here, and
  an icon element is the name of its icon.
\<close>

record post =
  post_id :: nat
  title :: string
  excerpt :: string
  category :: string
  readTime :: string
  publishDate :: string
  tags :: "string list"
  featured :: bool
  icon :: icon

definition blogPosts :: "post list" where
  "blogPosts =
    [\<lparr>post_id = 1,
      title = ''Building Scalable AI Models with TensorFlow and PyTorch'',
      excerpt =
        ''A comprehensive guide to developing and deploying machine learning models that ''
        @ ''can handle production-level workloads. Learn best practices for model ''
        @ ''architecture, training optimization, and deployment strategies.'',
      category = ''AI/ML'',
      readTime = ''8 min read'',
      publishDate = ''2024-12-15'',
      tags = [''TensorFlow'', ''PyTorch'', ''Machine Learning'', ''Scalability''],
      featured = True,
      icon = BrainIcon\<rparr>,
     \<lparr>post_id = 2,
      title = ''Blockchain Integration in Modern Web Applications'',
      excerpt =
        ''Exploring how to integrate blockchain technology into web applications using ''
        @ ''Web3.js and smart contracts. From wallet connections to transaction handling, ''
        @ ''this guide covers it all.'',
      category = ''Blockchain'',
      readTime = ''12 min read'',
      publishDate = ''2024-12-10'',
      tags = [''Blockchain'', ''Web3.js'', ''Smart Contracts'', ''Ethereum''],
      featured = True,
      icon = BlocksIcon\<rparr>,
     \<lparr>post_id = 3,
      title = ''Full-Stack Development with Django and React'',
      excerpt =
        ''Learn how to build robust full-stack applications using Django for the backend ''
        @ ''and React for the frontend. Includes authentication, API design, and ''
        @ ''deployment strategies.'',
      category = ''Web Development'',
      readTime = ''15 min read'',
      publishDate = ''2024-12-05'',
      tags = [''Django'', ''React'', ''Full-Stack'', ''API Development''],
      featured = False,
      icon = CodeIcon\<rparr>,
     \<lparr>post_id = 4,
      title = ''Data Pipeline Optimization for ML Workflows'',
      excerpt =
        ''Optimizing data pipelines for machine learning workflows using modern tools ''
        @ ''and techniques. Learn about data preprocessing, feature engineering, and ''
        @ ''automated ML pipelines.'',
      category = ''Data Science'',
      readTime = ''10 min read'',
      publishDate = ''2024-11-28'',
      tags = [''Data Science'', ''ML Pipelines'', ''Feature Engineering'', ''Automation''],
      featured = False,
      icon = DatabaseIcon\<rparr>,
     \<lparr>post_id = 5,
      title = ''Computer Vision Applications in Healthcare'',
      excerpt =
        ''Exploring the applications of computer vision in healthcare, from medical ''
        @ ''image analysis to diagnostic assistance. Learn about CNN architectures and ''
        @ ''real-world implementations.'',
      category = ''AI/ML'',
      readTime = ''11 min read'',
      publishDate = ''2024-11-20'',
      tags = [''Computer Vision'', ''Healthcare'', ''CNN'', ''Medical Imaging''],
      featured = False,
      icon = BrainIcon\<rparr>,
     \<lparr>post_id = 6,
      title = ''RESTful API Design Best Practices'',
      excerpt =
        ''A comprehensive guide to designing and implementing RESTful APIs that are ''
        @ ''scalable, maintainable, and developer-friendly. Includes authentication, ''
        @ ''versioning, and documentation strategies.'',
      category = ''Web Development'',
      readTime = ''9 min read'',
      publishDate = ''2024-11-15'',
      tags = [''REST API'', ''Backend Development'', ''API Design'', ''FastAPI''],
      featured = False,
      icon = CodeIcon\<rparr>]"

text \<open>Lines 96-98.\<close>

definition categories :: "string list" where
  "categories = [''All'', ''AI/ML'', ''Web Development'', ''Blockchain'', ''Data Science'']"

definition featuredPosts :: "post list" where
  "featuredPosts = filter (\<lambda>post. featured post) blogPosts"

definition recentPosts :: "post list" where
  "recentPosts = filter (\<lambda>post. \<not> featured post) blogPosts"

text \<open>
  What the page renders from the arrays: a button per category (lines 130-139; the
  \<^verbatim>\<open>Button\<close> is given a key, a variant, a size, a class name and its label, and no
  \<^verbatim>\<open>onClick\<close>), a card per featured post (lines 152-192, the first three tags) and a
  card per other post (lines 203-243, with the icon and the first two tags). The
  component declares no parameter and calls no hook: it has no state.
\<close>

record post_card =
  card_icon :: "icon option"
  card_category :: string
  card_title :: string
  card_excerpt :: string
  card_date :: string
  card_readTime :: string
  card_tags :: "string list"

record 's blogs_view =
  category_buttons :: "'s button list"
  featured_cards :: "post_card list"
  recent_cards :: "post_card list"

definition BlogsPage :: "'p \<Rightarrow> host \<Rightarrow> 's blogs_view" where
  "BlogsPage props h =
     \<lparr>category_buttons =
        map (\<lambda>category. Button (if category = ''All'' then ''default'' else ''outline'')
                          category None) categories,
      featured_cards =
        map (\<lambda>post. \<lparr>card_icon = None, card_category = category post,
                       card_title = title post, card_excerpt = excerpt post,
                       card_date = formatDate h (publishDate post),
                       card_readTime = readTime post,
                       card_tags = take 3 (tags post)\<rparr>) featuredPosts,
      recent_cards =
        map (\<lambda>post. \<lparr>card_icon = Some (icon post), card_category = category post,
                       card_title = title post, card_excerpt = excerpt post,
                       card_date = formatDate h (publishDate post),
                       card_readTime = readTime post,
                       card_tags = take 2 (tags post)\<rparr>) recentPosts\<rparr>"

section \<open>Properties of ContactPage\<close>

lemma map_of_update_same: "map_of (AList.update k v al) k = Some v"
  by (simp add: update_conv')

lemma map_of_update_other: "k' \<noteq> k \<Longrightarrow> map_of (AList.update k v al) k' = map_of al k'"
  by (simp add: update_conv')

text \<open>
  Claim C9. For every form state and every input event with target name \<open>n\<close> and value
  \<open>v\<close>, \<^verbatim>\<open>handleInputChange\<close> sets field \<open>n\<close> of \<^verbatim>\<open>formData\<close> to \<open>v\<close> and leaves every
  other field as it was (in particular the other three of name, email, subject and
  message); \<^verbatim>\<open>isSubmitting\<close> and \<^verbatim>\<open>isSubmitted\<close> are not modified, and neither is anything
  else of the environment. The statement holds for every key \<open>n\<close>, so also for the four
  names the form uses.
\<close>

theorem handleInputChange_sets_only_named_field:
  fixes st :: "'a contact_state_scheme"
  assumes "n \<in> {''name'', ''email'', ''subject'', ''message''}"
  shows "map_of (formData (handleInputChange \<lparr>target_name = n, target_value = v\<rparr> st)) n = Some v
       \<and> (\<forall>k. k \<noteq> n \<longrightarrow>
            map_of (formData (handleInputChange \<lparr>target_name = n, target_value = v\<rparr> st)) k
              = map_of (formData st) k)
       \<and> isSubmitting (handleInputChange \<lparr>target_name = n, target_value = v\<rparr> st) = isSubmitting st
       \<and> isSubmitted (handleInputChange \<lparr>target_name = n, target_value = v\<rparr> st) = isSubmitted st
       \<and> contact_state.more (handleInputChange \<lparr>target_name = n, target_value = v\<rparr> st)
           = contact_state.more st"
  by (simp add: handleInputChange_def map_of_update_same map_of_update_other)

theorem handleInputChange_sets_only_named_field_witness:
  "map_of (formData (handleInputChange \<lparr>target_name = ''email'', target_value = ''a@b.c''\<rparr>
        (initial_world\<lparr>formData := [(''name'', ''Ann''), (''email'', ''''), (''subject'', ''Hi''),
            (''message'', ''x'')], isSubmitting := True\<rparr>))) ''email'' = Some ''a@b.c''
   \<and> formData (handleInputChange \<lparr>target_name = ''email'', target_value = ''a@b.c''\<rparr>
        (initial_world\<lparr>formData := [(''name'', ''Ann''), (''email'', ''''), (''subject'', ''Hi''),
            (''message'', ''x'')], isSubmitting := True\<rparr>))
       = [(''name'', ''Ann''), (''email'', ''a@b.c''), (''subject'', ''Hi''), (''message'', ''x'')]
   \<and> isSubmitting (handleInputChange \<lparr>target_name = ''email'', target_value = ''a@b.c''\<rparr>
        (initial_world\<lparr>formData := [(''name'', ''Ann''), (''email'', ''''), (''subject'', ''Hi''),
            (''message'', ''x'')], isSubmitting := True\<rparr>))"
  using handleInputChange_sets_only_named_field
    [of "''email''" "''a@b.c''"
        "initial_world\<lparr>formData := [(''name'', ''Ann''), (''email'', ''''), (''subject'', ''Hi''),
            (''message'', ''x'')], isSubmitting := True\<rparr>"]
  by (simp add: handleInputChange_def initial_world_def)

subsection \<open>The event loop in each phase\<close>

lemma advance_idle: "idle w \<Longrightarrow> advance_to T w = w\<lparr>now := max (now w) T\<rparr>"
  by (simp add: idle_def advance_to.simps)

lemma advance_sending_before:
  "sending t w \<Longrightarrow> T < t \<Longrightarrow> advance_to T w = w\<lparr>now := max (now w) T\<rparr>"
  by (simp add: sending_def advance_to.simps)

lemma advance_showing_before:
  "showing t w \<Longrightarrow> T < t \<Longrightarrow> advance_to T w = w\<lparr>now := max (now w) T\<rparr>"
  by (simp add: showing_def advance_to.simps)

lemma fire_sending:
  "sending t w \<Longrightarrow>
   fire (t, ResumeSubmit) w =
     w\<lparr>now := t, timers := [(t + 3000, ResetForm)], fired := fired w @ [(t, ResumeSubmit)],
       isSubmitting := False, isSubmitted := True\<rparr>"
  by (simp add: sending_def fire_def handleSubmit_resumed_def max_def)

lemma fire_showing:
  "showing t w \<Longrightarrow>
   fire (t, ResetForm) w =
     w\<lparr>now := t, timers := [], fired := fired w @ [(t, ResetForm)],
       isSubmitted := False, formData := initialFormData\<rparr>"
  by (simp add: showing_def fire_def resetForm_def max_def)

lemma advance_showing_after:
  assumes "showing t w" "t \<le> T"
  shows "advance_to T w =
     w\<lparr>now := T, timers := [], fired := fired w @ [(t, ResetForm)],
       isSubmitted := False, formData := initialFormData\<rparr>"
proof -
  have "advance_to T w = advance_to T (fire (t, ResetForm) w)"
    using assms by (subst advance_to.simps) (simp add: showing_def)
  also have "\<dots> = advance_to T (w\<lparr>now := t, timers := [], fired := fired w @ [(t, ResetForm)],
       isSubmitted := False, formData := initialFormData\<rparr>)"
    using assms by (simp add: fire_showing)
  also have "\<dots> = w\<lparr>now := T, timers := [], fired := fired w @ [(t, ResetForm)],
       isSubmitted := False, formData := initialFormData\<rparr>"
    using assms by (subst advance_to.simps) (simp add: max_def)
  finally show ?thesis .
qed

lemma advance_sending_mid:
  assumes "sending t w" "t \<le> T" "T < t + 3000"
  shows "advance_to T w =
     w\<lparr>now := T, timers := [(t + 3000, ResetForm)], fired := fired w @ [(t, ResumeSubmit)],
       isSubmitting := False, isSubmitted := True\<rparr>"
proof -
  let ?w1 = "w\<lparr>now := t, timers := [(t + 3000, ResetForm)], fired := fired w @ [(t, ResumeSubmit)],
       isSubmitting := False, isSubmitted := True\<rparr>"
  have "advance_to T w = advance_to T (fire (t, ResumeSubmit) w)"
    using assms by (subst advance_to.simps) (simp add: sending_def)
  also have "\<dots> = advance_to T ?w1"
    using assms by (simp add: fire_sending)
  also have "\<dots> = ?w1\<lparr>now := max (now ?w1) T\<rparr>"
    using assms by (intro advance_showing_before[of "t + 3000"]) (simp_all add: showing_def)
  finally show ?thesis using assms by (simp add: max_def)
qed

lemma advance_sending_after:
  assumes "sending t w" "t + 3000 \<le> T"
  shows "advance_to T w =
     w\<lparr>now := T, timers := [],
       fired := fired w @ [(t, ResumeSubmit), (t + 3000, ResetForm)],
       isSubmitting := False, isSubmitted := False, formData := initialFormData\<rparr>"
proof -
  let ?w1 = "w\<lparr>now := t, timers := [(t + 3000, ResetForm)], fired := fired w @ [(t, ResumeSubmit)],
       isSubmitting := False, isSubmitted := True\<rparr>"
  have "advance_to T w = advance_to T (fire (t, ResumeSubmit) w)"
    using assms by (subst advance_to.simps) (simp add: sending_def)
  also have "\<dots> = advance_to T ?w1"
    using assms by (simp add: fire_sending)
  also have "\<dots> = ?w1\<lparr>now := T, timers := [], fired := fired ?w1 @ [(t + 3000, ResetForm)],
       isSubmitted := False, formData := initialFormData\<rparr>"
    using assms by (intro advance_showing_after) (simp_all add: showing_def)
  finally show ?thesis by simp
qed


lemma run_Nil [simp]: "run [] w = w"
  by (simp add: run_def)

lemma run_Cons [simp]: "run (e # es) w = run es (deliver e w)"
  by (simp add: run_def)

lemma run_append: "run (es @ es') w = run es' (run es w)"
  by (simp add: run_def)

lemma deliver_sending_before:
  assumes "sending t w" "now w + elapsed [e] < t"
  shows "\<exists>fd. deliver e w = w\<lparr>formData := fd, now := now w + elapsed [e]\<rparr>"
proof (cases e)
  case (Change n v)
  show ?thesis
  proof (cases "n \<in> {''name'', ''email'', ''subject'', ''message''}")
    case True
    with Change assms have "deliver e w = w\<lparr>formData := AList.update n v (formData w), now := now w + elapsed [e]\<rparr>"
      by (auto simp: ContactPage_card_def sending_def handleInputChange_def)
    then show ?thesis by blast
  next
    case False
    with Change assms have "deliver e w = w\<lparr>formData := formData w, now := now w + elapsed [e]\<rparr>"
      by (auto simp: ContactPage_card_def sending_def)
    then show ?thesis by blast
  qed
next
  case Submit
  with assms have "deliver e w = w\<lparr>formData := formData w, now := now w + elapsed [e]\<rparr>"
    by (simp add: ContactPage_card_def sending_def)
  then show ?thesis by blast
next
  case (Wait d)
  with assms have "deliver e w = w\<lparr>formData := formData w, now := now w + elapsed [e]\<rparr>"
    by (simp add: advance_sending_before max_def)
  then show ?thesis by blast
qed

lemma sending_frame: "sending t w \<Longrightarrow> n < t \<Longrightarrow> sending t (w\<lparr>formData := fd, now := n\<rparr>)"
  by (simp add: sending_def)

lemma elapsed_Cons: "elapsed (e # es) = elapsed [e] + elapsed es"
  by (cases e) simp_all

lemma run_sending_before:
  assumes "sending t w" "now w + elapsed es < t"
  shows "\<exists>fd. run es w = w\<lparr>formData := fd, now := now w + elapsed es\<rparr>"
  using assms
proof (induction es arbitrary: w)
  case Nil
  have "w = w\<lparr>formData := formData w, now := now w\<rparr>" by simp
  then show ?case by (metis elapsed.simps(1) add_0_right run_Nil)
next
  case (Cons e es)
  have el: "elapsed (e # es) = elapsed [e] + elapsed es" by (rule elapsed_Cons)
  with Cons.prems have "now w + elapsed [e] < t" by simp
  from deliver_sending_before[OF Cons.prems(1) this]
  obtain fd1 where d: "deliver e w = w\<lparr>formData := fd1, now := now w + elapsed [e]\<rparr>" by blast
  let ?w1 = "w\<lparr>formData := fd1, now := now w + elapsed [e]\<rparr>"
  have s1: "sending t ?w1" using Cons.prems el by (intro sending_frame) simp_all
  have "now ?w1 + elapsed es < t" using Cons.prems el by simp
  from Cons.IH[OF s1 this] obtain fd where
    "run es ?w1 = ?w1\<lparr>formData := fd, now := now ?w1 + elapsed es\<rparr>" by blast
  then have "run (e # es) w = w\<lparr>formData := fd, now := now w + elapsed (e # es)\<rparr>"
    using d el by (simp add: add.assoc)
  then show ?case by blast
qed

lemma deliver_showing_before:
  assumes "showing t w" "now w + elapsed [e] < t"
  shows "deliver e w = w\<lparr>now := now w + elapsed [e]\<rparr>"
proof (cases e)
  case (Wait d)
  with assms show ?thesis by (simp add: advance_showing_before max_def)
qed (use assms in \<open>simp_all add: ContactPage_card_def showing_def\<close>)

lemma run_showing_before:
  assumes "showing t w" "now w + elapsed es < t"
  shows "run es w = w\<lparr>now := now w + elapsed es\<rparr>"
  using assms
proof (induction es arbitrary: w)
  case Nil
  then show ?case by simp
next
  case (Cons e es)
  have el: "elapsed (e # es) = elapsed [e] + elapsed es" by (rule elapsed_Cons)
  with Cons.prems have b: "now w + elapsed [e] < t" by simp
  let ?w1 = "w\<lparr>now := now w + elapsed [e]\<rparr>"
  have d: "deliver e w = ?w1" by (rule deliver_showing_before[OF Cons.prems(1) b])
  have s1: "showing t ?w1" using Cons.prems(1) b by (simp add: showing_def)
  have "now ?w1 + elapsed es < t" using Cons.prems el by simp
  from Cons.IH[OF s1 this] show ?case using d el by (simp add: add.assoc)
qed

lemma run_sending_mid:
  assumes "sending t w" "t \<le> now w + elapsed es" "now w + elapsed es < t + 3000"
  shows "\<exists>fd. run es w =
     w\<lparr>formData := fd, now := now w + elapsed es, timers := [(t + 3000, ResetForm)],
       fired := fired w @ [(t, ResumeSubmit)], isSubmitting := False, isSubmitted := True\<rparr>"
  using assms
proof (induction es arbitrary: w)
  case Nil
  then show ?case by (simp add: sending_def)
next
  case (Cons e es)
  have el: "elapsed (e # es) = elapsed [e] + elapsed es" by (rule elapsed_Cons)
  show ?case
  proof (cases "now w + elapsed [e] < t")
    case True
    from deliver_sending_before[OF Cons.prems(1) True]
    obtain fd1 where d: "deliver e w = w\<lparr>formData := fd1, now := now w + elapsed [e]\<rparr>" by blast
    let ?w1 = "w\<lparr>formData := fd1, now := now w + elapsed [e]\<rparr>"
    have s1: "sending t ?w1" using Cons.prems(1) True by (intro sending_frame) simp_all
    have "t \<le> now ?w1 + elapsed es" "now ?w1 + elapsed es < t + 3000"
      using Cons.prems el by simp_all
    from Cons.IH[OF s1 this] obtain fd where
      "run es ?w1 = ?w1\<lparr>formData := fd, now := now ?w1 + elapsed es,
         timers := [(t + 3000, ResetForm)], fired := fired ?w1 @ [(t, ResumeSubmit)],
         isSubmitting := False, isSubmitted := True\<rparr>" by blast
    then have "run (e # es) w = w\<lparr>formData := fd, now := now w + elapsed (e # es),
         timers := [(t + 3000, ResetForm)], fired := fired w @ [(t, ResumeSubmit)],
         isSubmitting := False, isSubmitted := True\<rparr>"
      using d el by (simp add: add.assoc)
    then show ?thesis by blast
  next
    case False
    then obtain d where e: "e = Wait d"
      using Cons.prems(1) by (cases e) (simp_all add: sending_def)
    let ?w1 = "w\<lparr>now := now w + d, timers := [(t + 3000, ResetForm)],
       fired := fired w @ [(t, ResumeSubmit)], isSubmitting := False, isSubmitted := True\<rparr>"
    have b: "t \<le> now w + d" "now w + d < t + 3000" using False e Cons.prems el by simp_all
    have d1: "deliver e w = ?w1"
      using advance_sending_mid[OF Cons.prems(1) b] e by simp
    have s1: "showing (t + 3000) ?w1" using b by (simp add: showing_def)
    have "now ?w1 + elapsed es < t + 3000" using Cons.prems el e by simp
    from run_showing_before[OF s1 this]
    have "run (e # es) w = w\<lparr>formData := formData w, now := now w + elapsed (e # es),
         timers := [(t + 3000, ResetForm)], fired := fired w @ [(t, ResumeSubmit)],
         isSubmitting := False, isSubmitted := True\<rparr>"
      using d1 e by (simp add: add.assoc)
    then show ?thesis by blast
  qed
qed

subsection \<open>The runs of the page\<close>

lemma phase_inv_initial: "phase_inv initial_world"
  by (simp add: phase_inv_def idle_def initial_world_def)

lemma deliver_idle:
  assumes "idle w"
  shows "idle (deliver e w) \<or> sending (now w + 2000) (deliver e w)"
proof (cases e)
  case (Change n v)
  with assms show ?thesis
    by (auto simp: idle_def ContactPage_card_def handleInputChange_def)
next
  case Submit
  with assms show ?thesis
    by (simp add: idle_def sending_def ContactPage_card_def handleSubmit_def)
next
  case (Wait d)
  with assms show ?thesis
    by (simp add: advance_idle) (simp add: idle_def)
qed

lemma deliver_sending:
  assumes "sending t w"
  shows "sending t (deliver e w) \<or> showing (t + 3000) (deliver e w) \<or> idle (deliver e w)"
proof (cases "now w + elapsed [e] < t")
  case True
  from deliver_sending_before[OF assms True] obtain fd where
    "deliver e w = w\<lparr>formData := fd, now := now w + elapsed [e]\<rparr>" by blast
  with sending_frame[OF assms True] show ?thesis by simp
next
  case False
  then obtain d where e: "e = Wait d"
    using assms by (cases e) (simp_all add: sending_def)
  show ?thesis
  proof (cases "now w + d < t + 3000")
    case True
    with False e have b: "t \<le> now w + d" "now w + d < t + 3000" by simp_all
    have "showing (t + 3000) (deliver e w)"
      unfolding e deliver.simps advance_sending_mid[OF assms b]
      using b by (simp add: showing_def)
    then show ?thesis by blast
  next
    case False
    then have b: "t + 3000 \<le> now w + d" by simp
    have "idle (deliver e w)"
      unfolding e deliver.simps advance_sending_after[OF assms b]
      by (simp add: idle_def)
    then show ?thesis by blast
  qed
qed

lemma deliver_showing:
  assumes "showing t w"
  shows "showing t (deliver e w) \<or> idle (deliver e w)"
proof (cases "now w + elapsed [e] < t")
  case True
  have "showing t (deliver e w)"
    unfolding deliver_showing_before[OF assms True]
    using assms True by (simp add: showing_def)
  then show ?thesis by blast
next
  case False
  then obtain d where e: "e = Wait d"
    using assms by (cases e) (simp_all add: showing_def)
  with False have b: "t \<le> now w + d" by simp
  have "idle (deliver e w)"
    unfolding e deliver.simps advance_showing_after[OF assms b]
    using assms by (simp add: idle_def showing_def)
  then show ?thesis by blast
qed

lemma deliver_phase_inv: "phase_inv w \<Longrightarrow> phase_inv (deliver e w)"
  unfolding phase_inv_def
  using deliver_idle[of w e] deliver_sending[of _ w e] deliver_showing[of _ w e]
  by blast

lemma run_phase_inv: "phase_inv w \<Longrightarrow> phase_inv (run es w)"
  by (induction es arbitrary: w) (simp_all add: deliver_phase_inv)

lemma reachable_phase_inv: "phase_inv (run es initial_world)"
  by (rule run_phase_inv[OF phase_inv_initial])

lemma phase_inv_flags: "phase_inv w \<Longrightarrow> \<not> (isSubmitting w \<and> isSubmitted w)"
  by (auto simp: phase_inv_def idle_def sending_def showing_def)

lemma phase_inv_submitting:
  "phase_inv w \<Longrightarrow> isSubmitting w \<Longrightarrow> \<exists>t. sending t w"
  by (auto simp: phase_inv_def idle_def sending_def showing_def)

lemma phase_inv_form:
  "phase_inv w \<Longrightarrow> \<not> isSubmitting w \<Longrightarrow> \<not> isSubmitted w \<Longrightarrow> idle w"
  by (auto simp: phase_inv_def idle_def sending_def showing_def)

lemma submit_idle:
  assumes "idle w"
  shows "deliver Submit w = handleSubmit w" "sending (now w + 2000) (handleSubmit w)"
    "now (handleSubmit w) = now w" "fired (handleSubmit w) = fired w"
  using assms by (simp_all add: idle_def sending_def ContactPage_card_def handleSubmit_def)

text \<open>
  The handler by itself does not keep the two flags apart: called in a world that shows
  the success message it would set \<^verbatim>\<open>isSubmitting\<close> next to \<^verbatim>\<open>isSubmitted\<close>. It is the
  render that prevents this: in such a world there is no form to submit.
\<close>

lemma handleSubmit_unguarded:
  "isSubmitting (handleSubmit (handleSubmit_resumed v))
   \<and> isSubmitted (handleSubmit (handleSubmit_resumed v))
   \<and> deliver Submit (handleSubmit_resumed v) = handleSubmit_resumed v"
  by (simp add: handleSubmit_def handleSubmit_resumed_def ContactPage_card_def)

text \<open>
  Claim C10. In every world of the contact page that is reached from the initial one by
  changes of the inputs, submissions and the passing of time (which fires the timers of
  the delay and of the reset), \<^verbatim>\<open>isSubmitting\<close> and \<^verbatim>\<open>isSubmitted\<close> are never both
  true. While \<^verbatim>\<open>isSubmitting\<close> is true the submit button is rendered disabled (with the
  label of the spinner), a submit event changes nothing, exactly the timer of the delay
  is pending, and until it is due the page stays in \<^verbatim>\<open>isSubmitting\<close> and the number of
  calls of \<^verbatim>\<open>handleSubmit\<close> does not grow: no second submission starts before the first
  delay completes.
\<close>

theorem flags_never_both_true:
  assumes "w = run es initial_world"
  shows "\<not> (isSubmitting w \<and> isSubmitted w)
       \<and> (isSubmitting w \<longrightarrow>
            (\<exists>inputs. ContactPage_card w = ContactForm inputs (SubmitButton True ''Sending...''))
          \<and> deliver Submit w = w
          \<and> (\<exists>t. timers w = [(t, ResumeSubmit)] \<and> now w < t
                \<and> (\<forall>es'. now w + elapsed es' < t \<longrightarrow>
                      isSubmitting (run es' w) \<and> submissions (run es' w) = submissions w)))"
proof -
  have inv: "phase_inv w" unfolding assms by (rule reachable_phase_inv)
  have one: "\<not> (isSubmitting w \<and> isSubmitted w)" by (rule phase_inv_flags[OF inv])
  have two: "(\<exists>inputs. ContactPage_card w = ContactForm inputs (SubmitButton True ''Sending...''))
          \<and> deliver Submit w = w
          \<and> (\<exists>t. timers w = [(t, ResumeSubmit)] \<and> now w < t
                \<and> (\<forall>es'. now w + elapsed es' < t \<longrightarrow>
                      isSubmitting (run es' w) \<and> submissions (run es' w) = submissions w))"
    if sub: "isSubmitting w"
  proof -
    from phase_inv_submitting[OF inv sub] obtain t where s: "sending t w" by blast
    have card: "\<exists>inputs. ContactPage_card w = ContactForm inputs (SubmitButton True ''Sending...'')"
      using s by (simp add: sending_def ContactPage_card_def)
    have nosub: "deliver Submit w = w"
      using s by (simp add: sending_def ContactPage_card_def)
    have later: "isSubmitting (run es' w) \<and> submissions (run es' w) = submissions w"
      if "now w + elapsed es' < t" for es'
    proof -
      from run_sending_before[OF s that] obtain fd where
        "run es' w = w\<lparr>formData := fd, now := now w + elapsed es'\<rparr>" by blast
      then show ?thesis using sub by simp
    qed
    from s have "timers w = [(t, ResumeSubmit)]" "now w < t" by (simp_all add: sending_def)
    with card nosub later show ?thesis by blast
  qed
  from one two show ?thesis by blast
qed


theorem flags_never_both_true_witness:
  "isSubmitting (run [Submit] initial_world)
   \<and> \<not> isSubmitted (run [Submit] initial_world)
   \<and> deliver Submit (run [Submit] initial_world) = run [Submit] initial_world
   \<and> (\<exists>inputs. ContactPage_card (run [Submit] initial_world)
                   = ContactForm inputs (SubmitButton True ''Sending...''))"
proof -
  have sub: "isSubmitting (run [Submit] initial_world)"
    by (simp add: initial_world_def ContactPage_card_def handleSubmit_def)
  from flags_never_both_true[OF refl, of "[Submit]"] sub show ?thesis by blast
qed

lemma run_submit_before:
  assumes "idle w" "elapsed es' < 2000"
  shows "\<exists>fd. run (Submit # es') w =
     w\<lparr>formData := fd, now := now w + elapsed es', isSubmitting := True,
       timers := [(now w + 2000, ResumeSubmit)], submissions := Suc (submissions w)\<rparr>"
proof -
  let ?w1 = "handleSubmit w"
  note s = submit_idle[OF assms(1)]
  have "now ?w1 + elapsed es' < now w + 2000" using assms(2) s(3) by simp
  from run_sending_before[OF s(2) this] obtain fd where
    "run es' ?w1 = ?w1\<lparr>formData := fd, now := now ?w1 + elapsed es'\<rparr>" by blast
  then have "run (Submit # es') w =
     w\<lparr>formData := fd, now := now w + elapsed es', isSubmitting := True,
       timers := [(now w + 2000, ResumeSubmit)], submissions := Suc (submissions w)\<rparr>"
    using s(1) assms(1) by (simp add: handleSubmit_def idle_def)
  then show ?thesis by blast
qed

lemma run_submit_mid:
  assumes "idle w" "2000 \<le> elapsed es'" "elapsed es' < 5000"
  shows "\<exists>fd. run (Submit # es') w =
     w\<lparr>formData := fd, now := now w + elapsed es', isSubmitting := False, isSubmitted := True,
       timers := [(now w + 5000, ResetForm)],
       fired := fired w @ [(now w + 2000, ResumeSubmit)],
       submissions := Suc (submissions w)\<rparr>"
proof -
  let ?w1 = "handleSubmit w"
  note s = submit_idle[OF assms(1)]
  have "now w + 2000 \<le> now ?w1 + elapsed es'" "now ?w1 + elapsed es' < now w + 2000 + 3000"
    using assms(2,3) s(3) by simp_all
  from run_sending_mid[OF s(2) this] obtain fd where
    "run es' ?w1 = ?w1\<lparr>formData := fd, now := now ?w1 + elapsed es',
       timers := [(now w + 2000 + 3000, ResetForm)],
       fired := fired ?w1 @ [(now w + 2000, ResumeSubmit)],
       isSubmitting := False, isSubmitted := True\<rparr>" by blast
  then have "run (Submit # es') w =
     w\<lparr>formData := fd, now := now w + elapsed es', isSubmitting := False, isSubmitted := True,
       timers := [(now w + 5000, ResetForm)],
       fired := fired w @ [(now w + 2000, ResumeSubmit)],
       submissions := Suc (submissions w)\<rparr>"
    using s(1) by (simp add: handleSubmit_def)
  then show ?thesis by blast
qed

lemma run_submit_reset:
  assumes "idle w" "elapsed es' < 5000" "5000 \<le> elapsed es' + d"
  shows "run (Submit # es' @ [Wait d]) w =
     w\<lparr>formData := initialFormData, now := now w + elapsed es' + d,
       isSubmitting := False, isSubmitted := False, timers := [],
       fired := fired w @ [(now w + 2000, ResumeSubmit), (now w + 5000, ResetForm)],
       submissions := Suc (submissions w)\<rparr>"
proof (cases "elapsed es' < 2000")
  case True
  from run_submit_before[OF assms(1) True] obtain fd where
    r: "run (Submit # es') w =
     w\<lparr>formData := fd, now := now w + elapsed es', isSubmitting := True,
       timers := [(now w + 2000, ResumeSubmit)], submissions := Suc (submissions w)\<rparr>"
    (is "_ = ?w2") by blast
  have s2: "sending (now w + 2000) ?w2" using assms(1) True by (simp add: sending_def idle_def)
  have b: "now w + 2000 + 3000 \<le> now ?w2 + d" using assms(3) by simp
  have "run (Submit # es' @ [Wait d]) w = deliver (Wait d) (run (Submit # es') w)"
    using run_append[of "Submit # es'" "[Wait d]" w] by simp
  also have "\<dots> = advance_to (now ?w2 + d) ?w2" unfolding r by simp
  also note advance_sending_after[OF s2 b]
  finally show ?thesis by simp
next
  case False
  then have "2000 \<le> elapsed es'" by simp
  from run_submit_mid[OF assms(1) this assms(2)] obtain fd where
    r: "run (Submit # es') w =
     w\<lparr>formData := fd, now := now w + elapsed es', isSubmitting := False, isSubmitted := True,
       timers := [(now w + 5000, ResetForm)],
       fired := fired w @ [(now w + 2000, ResumeSubmit)],
       submissions := Suc (submissions w)\<rparr>"
    (is "_ = ?w2") by blast
  have s2: "showing (now w + 5000) ?w2" using assms(2) by (simp add: showing_def)
  have b: "now w + 5000 \<le> now ?w2 + d" using assms(3) by simp
  have "run (Submit # es' @ [Wait d]) w = deliver (Wait d) (run (Submit # es') w)"
    using run_append[of "Submit # es'" "[Wait d]" w] by simp
  also have "\<dots> = advance_to (now ?w2 + d) ?w2" unfolding r by simp
  also note advance_showing_after[OF s2 b]
  finally show ?thesis by simp
qed


text \<open>
  Claim C1. Every submission of the contact form succeeds. In a reachable world that
  shows the form with its button enabled, the submit event runs \<^verbatim>\<open>handleSubmit\<close>;
  whatever the user does meanwhile, the page is in \<^verbatim>\<open>isSubmitting\<close> until 2000 ms have
  passed, and from then until the reset (3000 ms later) \<^verbatim>\<open>isSubmitting\<close> is false,
  \<^verbatim>\<open>isSubmitted\<close> is true and the card shows 'Message Sent Successfully!'; the delay
  timer has fired exactly at 2000 ms after the submission. The resumed body of
  \<^verbatim>\<open>handleSubmit\<close> sets these flags in every world \<open>v\<close> it runs in. All functions of the
  model are total and the card has no third alternative: as in the source, there is no
  failure or error state to reach.
\<close>

theorem submit_always_succeeds:
  assumes "w = run es initial_world" and "\<not> isSubmitting w" and "\<not> isSubmitted w"
  shows "deliver Submit w = handleSubmit w
       \<and> (elapsed es' < 2000 \<longrightarrow>
            isSubmitting (run (Submit # es') w) \<and> \<not> isSubmitted (run (Submit # es') w))
       \<and> (2000 \<le> elapsed es' \<and> elapsed es' < 5000 \<longrightarrow>
            \<not> isSubmitting (run (Submit # es') w) \<and> isSubmitted (run (Submit # es') w)
            \<and> ContactPage_card (run (Submit # es') w)
                = SuccessMessage ''Message Sent Successfully!''
                    ''Thank you for reaching out. I'll get back to you soon.''
            \<and> fired (run (Submit # es') w) = fired w @ [(now w + 2000, ResumeSubmit)])
       \<and> \<not> isSubmitting (handleSubmit_resumed v) \<and> isSubmitted (handleSubmit_resumed v)
       \<and> ContactPage_card (handleSubmit_resumed v)
            = SuccessMessage ''Message Sent Successfully!''
                ''Thank you for reaching out. I'll get back to you soon.''"
proof -
  have "phase_inv w" unfolding assms(1) by (rule reachable_phase_inv)
  then have idle: "idle w" using assms(2,3) by (rule phase_inv_form)
  have a: "deliver Submit w = handleSubmit w" by (rule submit_idle(1)[OF idle])
  have b: "isSubmitting (run (Submit # es') w) \<and> \<not> isSubmitted (run (Submit # es') w)"
    if "elapsed es' < 2000"
  proof -
    from run_submit_before[OF idle that] obtain fd where
      "run (Submit # es') w =
         w\<lparr>formData := fd, now := now w + elapsed es', isSubmitting := True,
           timers := [(now w + 2000, ResumeSubmit)], submissions := Suc (submissions w)\<rparr>"
      by blast
    then show ?thesis using assms(3) by simp
  qed
  have c: "\<not> isSubmitting (run (Submit # es') w) \<and> isSubmitted (run (Submit # es') w)
            \<and> ContactPage_card (run (Submit # es') w)
                = SuccessMessage ''Message Sent Successfully!''
                    ''Thank you for reaching out. I'll get back to you soon.''
            \<and> fired (run (Submit # es') w) = fired w @ [(now w + 2000, ResumeSubmit)]"
    if "2000 \<le> elapsed es'" "elapsed es' < 5000"
  proof -
    from run_submit_mid[OF idle that] obtain fd where
      "run (Submit # es') w =
         w\<lparr>formData := fd, now := now w + elapsed es', isSubmitting := False,
           isSubmitted := True, timers := [(now w + 5000, ResetForm)],
           fired := fired w @ [(now w + 2000, ResumeSubmit)],
           submissions := Suc (submissions w)\<rparr>"
      by blast
    then show ?thesis by (simp add: ContactPage_card_def)
  qed
  have d: "\<not> isSubmitting (handleSubmit_resumed v) \<and> isSubmitted (handleSubmit_resumed v)
       \<and> ContactPage_card (handleSubmit_resumed v)
            = SuccessMessage ''Message Sent Successfully!''
                ''Thank you for reaching out. I'll get back to you soon.''"
    by (simp add: handleSubmit_resumed_def ContactPage_card_def)
  from a b c d show ?thesis by blast
qed

theorem submit_always_succeeds_witness:
  "isSubmitted (run [Submit, Change ''name'' ''Ann'', Wait 1500, Submit, Wait 600] initial_world)
   \<and> \<not> isSubmitting
        (run [Submit, Change ''name'' ''Ann'', Wait 1500, Submit, Wait 600] initial_world)
   \<and> ContactPage_card
        (run [Submit, Change ''name'' ''Ann'', Wait 1500, Submit, Wait 600] initial_world)
      = SuccessMessage ''Message Sent Successfully!''
          ''Thank you for reaching out. I'll get back to you soon.''
   \<and> fired (run [Submit, Change ''name'' ''Ann'', Wait 1500, Submit, Wait 600] initial_world)
      = [(2000, ResumeSubmit)]"
proof -
  have w: "initial_world = run [] initial_world" by simp
  have f: "\<not> isSubmitting initial_world" "\<not> isSubmitted initial_world"
    by (simp_all add: initial_world_def)
  have e: "2000 \<le> elapsed [Change ''name'' ''Ann'', Wait 1500, Submit, Wait 600]
         \<and> elapsed [Change ''name'' ''Ann'', Wait 1500, Submit, Wait 600] < 5000"
    by simp
  have n: "now initial_world = 0" "fired initial_world = []" by (simp_all add: initial_world_def)
  from submit_always_succeeds[OF w f,
      of "[Change ''name'' ''Ann'', Wait 1500, Submit, Wait 600]"] e
  have "\<not> isSubmitting
          (run (Submit # [Change ''name'' ''Ann'', Wait 1500, Submit, Wait 600]) initial_world)
      \<and> isSubmitted
          (run (Submit # [Change ''name'' ''Ann'', Wait 1500, Submit, Wait 600]) initial_world)
      \<and> ContactPage_card
          (run (Submit # [Change ''name'' ''Ann'', Wait 1500, Submit, Wait 600]) initial_world)
          = SuccessMessage ''Message Sent Successfully!''
              ''Thank you for reaching out. I'll get back to you soon.''
      \<and> fired
          (run (Submit # [Change ''name'' ''Ann'', Wait 1500, Submit, Wait 600]) initial_world)
          = fired initial_world @ [(now initial_world + 2000, ResumeSubmit)]"
    by blast
  then show ?thesis unfolding n by (simp only: append_Nil add_0) blast
qed

text \<open>
  Claim C2. After a submission has completed (2000 ms after the submit event), exactly
  the reset timer is pending, due 3000 ms after the completion. Once that time has
  passed, the log of fired callbacks has grown by the completion and by one firing of the
  reset, at exactly that time, and no timer is pending any more: the reset fires once.
  After it \<^verbatim>\<open>isSubmitted\<close> is false and \<^verbatim>\<open>formData\<close> is the object with the four fields
  name, email, subject and message, each the empty string. The callback does this in
  every world \<open>v\<close> and schedules nothing.
\<close>

theorem reset_timer_fires_once:
  assumes "w = run es initial_world" and "\<not> isSubmitting w" and "\<not> isSubmitted w"
    and "elapsed es' < 5000" and "5000 \<le> elapsed es' + d"
  shows "(2000 \<le> elapsed es' \<longrightarrow>
            timers (run (Submit # es') w) = [(now w + 2000 + 3000, ResetForm)]
          \<and> fired (run (Submit # es') w) = fired w @ [(now w + 2000, ResumeSubmit)])
       \<and> fired (run (Submit # es' @ [Wait d]) w)
           = fired w @ [(now w + 2000, ResumeSubmit), (now w + 2000 + 3000, ResetForm)]
       \<and> timers (run (Submit # es' @ [Wait d]) w) = []
       \<and> \<not> isSubmitted (run (Submit # es' @ [Wait d]) w)
       \<and> formData (run (Submit # es' @ [Wait d]) w)
           = [(''name'', ''''), (''email'', ''''), (''subject'', ''''), (''message'', '''')]
       \<and> \<not> isSubmitted (resetForm v)
       \<and> formData (resetForm v)
           = [(''name'', ''''), (''email'', ''''), (''subject'', ''''), (''message'', '''')]
       \<and> timers (resetForm v) = timers v"
proof -
  have "phase_inv w" unfolding assms(1) by (rule reachable_phase_inv)
  then have idle: "idle w" using assms(2,3) by (rule phase_inv_form)
  have a: "timers (run (Submit # es') w) = [(now w + 2000 + 3000, ResetForm)]
          \<and> fired (run (Submit # es') w) = fired w @ [(now w + 2000, ResumeSubmit)]"
    if "2000 \<le> elapsed es'"
  proof -
    from run_submit_mid[OF idle that assms(4)] obtain fd where
      "run (Submit # es') w =
         w\<lparr>formData := fd, now := now w + elapsed es', isSubmitting := False,
           isSubmitted := True, timers := [(now w + 5000, ResetForm)],
           fired := fired w @ [(now w + 2000, ResumeSubmit)],
           submissions := Suc (submissions w)\<rparr>"
      by blast
    then show ?thesis by simp
  qed
  note r = run_submit_reset[OF idle assms(4,5)]
  have b: "fired (run (Submit # es' @ [Wait d]) w)
           = fired w @ [(now w + 2000, ResumeSubmit), (now w + 2000 + 3000, ResetForm)]"
    "timers (run (Submit # es' @ [Wait d]) w) = []"
    "\<not> isSubmitted (run (Submit # es' @ [Wait d]) w)"
    "formData (run (Submit # es' @ [Wait d]) w)
           = [(''name'', ''''), (''email'', ''''), (''subject'', ''''), (''message'', '''')]"
    unfolding r by (simp_all add: initialFormData_def)
  have c: "\<not> isSubmitted (resetForm v)"
    "formData (resetForm v)
           = [(''name'', ''''), (''email'', ''''), (''subject'', ''''), (''message'', '''')]"
    "timers (resetForm v) = timers v"
    by (simp_all add: resetForm_def initialFormData_def)
  from a b c show ?thesis by blast
qed

theorem reset_timer_fires_once_witness:
  "timers (run [Submit, Change ''email'' ''a@b.c'', Wait 2500] initial_world) = [(5000, ResetForm)]
   \<and> fired (run [Submit, Change ''email'' ''a@b.c'', Wait 2500, Wait 2500] initial_world)
       = [(2000, ResumeSubmit), (5000, ResetForm)]
   \<and> timers (run [Submit, Change ''email'' ''a@b.c'', Wait 2500, Wait 2500] initial_world) = []
   \<and> \<not> isSubmitted (run [Submit, Change ''email'' ''a@b.c'', Wait 2500, Wait 2500] initial_world)
   \<and> formData (run [Submit, Change ''email'' ''a@b.c'', Wait 2500, Wait 2500] initial_world)
       = [(''name'', ''''), (''email'', ''''), (''subject'', ''''), (''message'', '''')]"
proof -
  have w: "initial_world = run [] initial_world" by simp
  have f: "\<not> isSubmitting initial_world" "\<not> isSubmitted initial_world"
    by (simp_all add: initial_world_def)
  have e: "elapsed [Change ''email'' ''a@b.c'', Wait 2500] < 5000"
    "5000 \<le> elapsed [Change ''email'' ''a@b.c'', Wait 2500] + 2500"
    "2000 \<le> elapsed [Change ''email'' ''a@b.c'', Wait 2500]"
    by simp_all
  have n: "now initial_world = 0" "fired initial_world = []" by (simp_all add: initial_world_def)
  from reset_timer_fires_once[OF w f e(1,2)] e(3)
  have "timers (run (Submit # [Change ''email'' ''a@b.c'', Wait 2500]) initial_world)
          = [(now initial_world + 2000 + 3000, ResetForm)]
      \<and> fired (run (Submit # [Change ''email'' ''a@b.c'', Wait 2500] @ [Wait 2500]) initial_world)
          = fired initial_world
              @ [(now initial_world + 2000, ResumeSubmit),
                 (now initial_world + 2000 + 3000, ResetForm)]
      \<and> timers (run (Submit # [Change ''email'' ''a@b.c'', Wait 2500] @ [Wait 2500]) initial_world)
          = []
      \<and> \<not> isSubmitted
          (run (Submit # [Change ''email'' ''a@b.c'', Wait 2500] @ [Wait 2500]) initial_world)
      \<and> formData
          (run (Submit # [Change ''email'' ''a@b.c'', Wait 2500] @ [Wait 2500]) initial_world)
          = [(''name'', ''''), (''email'', ''''), (''subject'', ''''), (''message'', '''')]"
    by blast
  then show ?thesis unfolding n
    by (simp only: append_Nil append_Cons add_0 numeral_plus_numeral semiring_norm num.simps
          simp_thms)
qed

section \<open>Properties of Navigation, BlogsPage, HomePage and Footer\<close>

text \<open>
  Claim C5. The state of Navigation is the single boolean \<^verbatim>\<open>isOpen\<close> (a state is its
  \<^verbatim>\<open>isOpen\<close> field and nothing else), initially false. A click on the menu button replaces
  \<^verbatim>\<open>isOpen\<close> by its negation and touches nothing else; the mobile menu is rendered
  exactly when \<^verbatim>\<open>isOpen\<close> is true; when it is rendered it holds a link for each item of
  \<^verbatim>\<open>navItems\<close>, and a click on any of them sets \<^verbatim>\<open>isOpen\<close> to false and touches nothing
  else.
\<close>

theorem Navigation_menu_state:
  fixes s :: "'a navigation_state_scheme" and s0 :: navigation_state
  shows "s0 = \<lparr>isOpen = isOpen s0\<rparr>
       \<and> isOpen Navigation_initial = False
       \<and> isOpen (click (button_onClick (menu_button (Navigation p s))) s) = (\<not> isOpen s)
       \<and> navigation_state.more (click (button_onClick (menu_button (Navigation p s))) s)
           = navigation_state.more s
       \<and> (mobile_menu (Navigation p s) \<noteq> None \<longleftrightarrow> isOpen s)
       \<and> (\<forall>links social. mobile_menu (Navigation p s) = Some (links, social) \<longrightarrow>
             map (\<lambda>l. (href l, link_label l)) links = navItems
           \<and> (\<forall>l \<in> set links.
                 isOpen (click (link_onClick l) s) = False
               \<and> navigation_state.more (click (link_onClick l) s) = navigation_state.more s))"
  by (auto simp: Navigation_initial_def Navigation_def setIsOpen_def navItems_def)

theorem Navigation_menu_state_witness:
  "mobile_menu (Navigation () \<lparr>isOpen = True\<rparr>) \<noteq> None
   \<and> isOpen (click (button_onClick (menu_button (Navigation () \<lparr>isOpen = True\<rparr>)))
         \<lparr>isOpen = True\<rparr>) = False
   \<and> map (\<lambda>l. isOpen (click (link_onClick l) \<lparr>isOpen = True\<rparr>))
        (fst (the (mobile_menu (Navigation () \<lparr>isOpen = True\<rparr>)))) = [False, False, False]"
  using Navigation_menu_state[of "\<lparr>isOpen = True\<rparr>" "()" "\<lparr>isOpen = True\<rparr>"]
  by (simp add: Navigation_def setIsOpen_def navItems_def)


lemma clicks_without_handler:
  "(\<forall>b \<in> set bs. button_onClick b = None) \<Longrightarrow>
   foldl (\<lambda>s b. click (button_onClick b) s) s bs = s"
  by (induction bs arbitrary: s) simp_all

text \<open>
  Claim C4. BlogsPage renders one button for each of 'All', 'AI/ML', 'Web Development',
  'Blockchain' and 'Data Science'. None of them carries a click handler, so a click on
  one, and any sequence of clicks on them, leaves every state as it was. The component
  itself has no state (its render takes none), and it renders a card for every featured
  post and a card for every other post, whatever was clicked.
\<close>

theorem category_buttons_have_no_effect:
  fixes s :: 's
  shows "map button_label (category_buttons (BlogsPage p h :: 's blogs_view))
           = [''All'', ''AI/ML'', ''Web Development'', ''Blockchain'', ''Data Science'']
       \<and> (\<forall>b \<in> set (category_buttons (BlogsPage p h :: 's blogs_view)).
             button_onClick b = None \<and> click (button_onClick b) s = s)
       \<and> (set bs \<subseteq> set (category_buttons (BlogsPage p h :: 's blogs_view)) \<longrightarrow>
             foldl (\<lambda>s b. click (button_onClick b) s) s bs = s)
       \<and> map card_title (featured_cards (BlogsPage p h :: 's blogs_view)) = map title featuredPosts
       \<and> map card_title (recent_cards (BlogsPage p h :: 's blogs_view)) = map title recentPosts"
proof -
  have none: "\<forall>b \<in> set (category_buttons (BlogsPage p h :: 's blogs_view)). button_onClick b = None"
    by (simp add: BlogsPage_def)
  have a: "map button_label (category_buttons (BlogsPage p h :: 's blogs_view))
           = [''All'', ''AI/ML'', ''Web Development'', ''Blockchain'', ''Data Science'']"
    by (simp add: BlogsPage_def categories_def)
  have b: "\<forall>b \<in> set (category_buttons (BlogsPage p h :: 's blogs_view)).
             button_onClick b = None \<and> click (button_onClick b) s = s"
    using none by simp
  have c: "foldl (\<lambda>s b. click (button_onClick b) s) s bs = s"
    if "set bs \<subseteq> set (category_buttons (BlogsPage p h :: 's blogs_view))"
    using that none by (intro clicks_without_handler) blast
  have d: "map card_title (featured_cards (BlogsPage p h :: 's blogs_view)) = map title featuredPosts"
    "map card_title (recent_cards (BlogsPage p h :: 's blogs_view)) = map title recentPosts"
    by (simp_all add: BlogsPage_def)
  from a b c d show ?thesis by blast
qed

theorem category_buttons_have_no_effect_witness:
  "Button ''outline'' ''AI/ML'' None
     \<in> set (category_buttons (BlogsPage () (fixed_offset 0) :: nat blogs_view))
   \<and> click (button_onClick (Button ''outline'' ''AI/ML'' None :: nat button)) 7 = 7
   \<and> foldl (\<lambda>s b. click (button_onClick b) s) (7::nat)
        [Button ''outline'' ''AI/ML'' None, Button ''default'' ''All'' None] = 7"
proof -
  have m: "Button ''outline'' ''AI/ML'' None
             \<in> set (category_buttons (BlogsPage () (fixed_offset 0) :: nat blogs_view))"
    "Button ''default'' ''All'' None
             \<in> set (category_buttons (BlogsPage () (fixed_offset 0) :: nat blogs_view))"
    by (simp_all add: BlogsPage_def categories_def)
  then have sub: "set [Button ''outline'' ''AI/ML'' None, Button ''default'' ''All'' None]
           \<subseteq> set (category_buttons (BlogsPage () (fixed_offset 0) :: nat blogs_view))"
    by simp
  from category_buttons_have_no_effect[where p = "()" and h = "fixed_offset 0" and s = "7::nat"
        and bs = "[Button ''outline'' ''AI/ML'' None, Button ''default'' ''All'' None]"] m sub
  show ?thesis by blast
qed

lemma count_list_filter:
  "count_list (filter P xs) x = (if P x then count_list xs x else 0)"
  by (induction xs) auto

lemma distinct_count_list: "distinct xs \<Longrightarrow> x \<in> set xs \<Longrightarrow> count_list xs x = 1"
  by (induction xs) auto

lemma distinct_blogPosts: "distinct (map post_id blogPosts)"
  by (simp add: blogPosts_def)

text \<open>
  Claim C8. \<^verbatim>\<open>featuredPosts\<close> and \<^verbatim>\<open>recentPosts\<close> partition \<^verbatim>\<open>blogPosts\<close>: a post of
  \<^verbatim>\<open>blogPosts\<close> is in \<^verbatim>\<open>featuredPosts\<close> exactly when its \<^verbatim>\<open>featured\<close> flag is true and in
  \<^verbatim>\<open>recentPosts\<close> exactly when it is false, and it occurs once in the two lists together;
  the lists are disjoint, together they hold the posts of \<^verbatim>\<open>blogPosts\<close> (as sets and as
  multisets), and each is a subsequence of \<^verbatim>\<open>blogPosts\<close>: the original order is kept.
\<close>

theorem featured_recent_partition:
  "(\<forall>p \<in> set blogPosts.
       (p \<in> set featuredPosts \<longleftrightarrow> featured p)
     \<and> (p \<in> set recentPosts \<longleftrightarrow> \<not> featured p)
     \<and> count_list featuredPosts p + count_list recentPosts p = 1)
   \<and> set featuredPosts \<union> set recentPosts = set blogPosts
   \<and> set featuredPosts \<inter> set recentPosts = {}
   \<and> mset featuredPosts + mset recentPosts = mset blogPosts
   \<and> subseq featuredPosts blogPosts
   \<and> subseq recentPosts blogPosts"
proof -
  have d: "distinct blogPosts" using distinct_blogPosts by (rule distinct_map[THEN iffD1, THEN conjunct1])
  have a: "(p \<in> set featuredPosts \<longleftrightarrow> featured p)
     \<and> (p \<in> set recentPosts \<longleftrightarrow> \<not> featured p)
     \<and> count_list featuredPosts p + count_list recentPosts p = 1"
    if "p \<in> set blogPosts" for p
    using that distinct_count_list[OF d that]
    by (simp add: featuredPosts_def recentPosts_def count_list_filter)
  have b: "set featuredPosts \<union> set recentPosts = set blogPosts"
    "set featuredPosts \<inter> set recentPosts = {}"
    by (auto simp: featuredPosts_def recentPosts_def)
  have c: "mset featuredPosts + mset recentPosts = mset blogPosts"
    by (simp add: featuredPosts_def recentPosts_def)
  have e: "subseq featuredPosts blogPosts" "subseq recentPosts blogPosts"
    by (simp_all add: featuredPosts_def recentPosts_def)
  from a b c e show ?thesis by blast
qed

theorem featured_recent_partition_witness:
  "blogPosts ! 2 \<in> set blogPosts
   \<and> blogPosts ! 2 \<in> set recentPosts
   \<and> blogPosts ! 2 \<notin> set featuredPosts
   \<and> count_list featuredPosts (blogPosts ! 2) + count_list recentPosts (blogPosts ! 2) = 1"
proof -
  have m: "blogPosts ! 2 \<in> set blogPosts" by (rule nth_mem) (simp add: blogPosts_def)
  have f: "\<not> featured (blogPosts ! 2)" by (simp add: blogPosts_def)
  from featured_recent_partition m f show ?thesis by blast
qed

lemma decimal_small: "n < 10 \<Longrightarrow> decimal n = [''0123456789'' ! n]"
  by (simp add: decimal.simps)

lemma decimal_large:
  "\<not> n < 10 \<Longrightarrow> decimal n = decimal (n div 10) @ [''0123456789'' ! (n mod 10)]"
  by (subst decimal.simps) simp

lemmas date_defs = formatDate_def Date_parse_def digit_def DaysInMonth_def InLeapYear_def
  msPerDay_def toLocaleDateString_def LocalTime_def fixed_offset_def monthNames_def
  decimal_small decimal_large civil_from_days_def civil_from_era_def civil_from_yoe_def
  civil_from_doy_def civil_from_mp_def days_from_civil_def days_from_era_def

text \<open>The calendar conversions on some days, a leap day among them.\<close>

lemma calendar_samples:
  "civil_from_days 0 = (1970, 1, 1)"
  "civil_from_days (- 1) = (1969, 12, 31)"
  "civil_from_days 11016 = (2000, 2, 29)"
  "civil_from_days 11017 = (2000, 3, 1)"
  "civil_from_days 20072 = (2024, 12, 15)"
  "days_from_civil 1970 1 1 = 0"
  "days_from_civil 2000 2 29 = 11016"
  "days_from_civil 2024 12 15 = 20072"
  by (simp_all add: civil_from_days_def civil_from_era_def civil_from_yoe_def
      civil_from_doy_def civil_from_mp_def days_from_civil_def days_from_era_def)

lemma formatDate_utc:
  "formatDate (fixed_offset 0) ''2024-12-15'' = ''December 15, 2024''"
  "formatDate (fixed_offset 0) ''2024-12-10'' = ''December 10, 2024''"
  "formatDate (fixed_offset 0) ''2024-12-05'' = ''December 5, 2024''"
  "formatDate (fixed_offset 0) ''2024-11-28'' = ''November 28, 2024''"
  "formatDate (fixed_offset 0) ''2024-11-20'' = ''November 20, 2024''"
  "formatDate (fixed_offset 0) ''2024-11-15'' = ''November 15, 2024''"
  by (simp_all add: date_defs)

lemma formatDate_west:
  "formatDate (fixed_offset (- 300)) ''2024-12-15'' = ''December 14, 2024''"
  "formatDate (fixed_offset (- 300)) ''2024-12-10'' = ''December 9, 2024''"
  "formatDate (fixed_offset (- 300)) ''2024-12-05'' = ''December 4, 2024''"
  "formatDate (fixed_offset (- 300)) ''2024-11-28'' = ''November 27, 2024''"
  "formatDate (fixed_offset (- 300)) ''2024-11-20'' = ''November 19, 2024''"
  "formatDate (fixed_offset (- 300)) ''2024-11-15'' = ''November 14, 2024''"
  by (simp_all add: date_defs)

lemma publishDates:
  "map publishDate featuredPosts = [''2024-12-15'', ''2024-12-10'']"
  "map publishDate recentPosts = [''2024-12-05'', ''2024-11-28'', ''2024-11-20'', ''2024-11-15'']"
  by (simp_all add: featuredPosts_def recentPosts_def blogPosts_def)

lemma card_dates:
  "map card_date (featured_cards (BlogsPage p h :: 's blogs_view))
     = map (formatDate h) (map publishDate featuredPosts)"
  "map card_date (recent_cards (BlogsPage p h :: 's blogs_view))
     = map (formatDate h) (map publishDate recentPosts)"
  by (simp_all add: BlogsPage_def)

text \<open>
  Claim C6 says that what BlogsPage renders is determined by the literal arrays alone,
  the formatted dates included. The code does not do that: \<^verbatim>\<open>formatDate\<close> prints the date
  in the time zone of the host. On a host at UTC the post published on 2024-12-15 is
  dated December 15, 2024; on a host five hours behind UTC the same post is dated
  December 14, 2024, and so for every post of the page.
\<close>

theorem formatDate_follows_host_time_zone:
  "formatDate (fixed_offset 0) ''2024-12-15'' = ''December 15, 2024''
   \<and> formatDate (fixed_offset (- 300)) ''2024-12-15'' = ''December 14, 2024''
   \<and> map card_date (featured_cards (BlogsPage () (fixed_offset 0) :: unit blogs_view))
       = [''December 15, 2024'', ''December 10, 2024'']
   \<and> map card_date (featured_cards (BlogsPage () (fixed_offset (- 300)) :: unit blogs_view))
       = [''December 14, 2024'', ''December 9, 2024'']
   \<and> map card_date (recent_cards (BlogsPage () (fixed_offset 0) :: unit blogs_view))
       = [''December 5, 2024'', ''November 28, 2024'', ''November 20, 2024'',
          ''November 15, 2024'']
   \<and> map card_date (recent_cards (BlogsPage () (fixed_offset (- 300)) :: unit blogs_view))
       = [''December 4, 2024'', ''November 27, 2024'', ''November 19, 2024'',
          ''November 14, 2024'']"
  unfolding card_dates publishDates
  by (simp only: list.map formatDate_utc formatDate_west simp_thms)

text \<open>
  Claim C7. No component uses its props: each renders the same for any two props. What
  a component renders is a function of its own state only (Navigation of \<^verbatim>\<open>isOpen\<close>,
  ContactPage of its three state cells, whatever else the environment holds; Footer,
  HomePage and BlogsPage have no state), so nothing flows from one component into the
  output of another.
\<close>

theorem components_take_no_props:
  fixes s s' :: "'a navigation_state_scheme" and st st' :: "'b contact_state_scheme"
  shows "Navigation p s = Navigation q s
       \<and> (Footer p :: 's footer_view) = Footer q
       \<and> (HomePage p :: 's home_view) = HomePage q
       \<and> ContactPage p st = ContactPage q st
       \<and> (BlogsPage p h :: 's blogs_view) = BlogsPage q h
       \<and> (isOpen s = isOpen s' \<longrightarrow> Navigation p s = Navigation q s')
       \<and> (formData st = formData st' \<and> isSubmitting st = isSubmitting st'
            \<and> isSubmitted st = isSubmitted st' \<longrightarrow> ContactPage p st = ContactPage q st')"
  by (simp add: Navigation_def Footer_def HomePage_def ContactPage_def ContactPage_card_def
      BlogsPage_def)

theorem components_take_no_props_witness:
  "Navigation () \<lparr>isOpen = True, \<dots> = (1::nat)\<rparr> = Navigation ''props'' \<lparr>isOpen = True, \<dots> = (2::nat)\<rparr>
   \<and> ContactPage () (initial_world\<lparr>now := 5\<rparr>) = ContactPage (3::int) initial_world"
proof -
  have a: "isOpen \<lparr>isOpen = True, \<dots> = (1::nat)\<rparr> = isOpen \<lparr>isOpen = True, \<dots> = (2::nat)\<rparr>"
    by simp
  have b: "formData (initial_world\<lparr>now := 5\<rparr>) = formData initial_world
         \<and> isSubmitting (initial_world\<lparr>now := 5\<rparr>) = isSubmitting initial_world
         \<and> isSubmitted (initial_world\<lparr>now := 5\<rparr>) = isSubmitted initial_world"
    by simp
  from components_take_no_props[where p = "()" and q = "''props''"
        and s = "\<lparr>isOpen = True, \<dots> = (1::nat)\<rparr>" and s' = "\<lparr>isOpen = True, \<dots> = (2::nat)\<rparr>"] a
  have n: "Navigation () \<lparr>isOpen = True, \<dots> = (1::nat)\<rparr>
             = Navigation ''props'' \<lparr>isOpen = True, \<dots> = (2::nat)\<rparr>"
    by blast
  from components_take_no_props[where p = "()" and q = "3::int"
        and st = "initial_world\<lparr>now := 5\<rparr>" and st' = "initial_world"] b
  have c: "ContactPage () (initial_world\<lparr>now := 5\<rparr>) = ContactPage (3::int) initial_world"
    by blast
  from n c show ?thesis by blast
qed

section \<open>The timers of the source\<close>

lemma count_cb_simps [simp]:
  "count_cb c [] = 0"
  "count_cb c (t # ts) = (if snd t = c then Suc (count_cb c ts) else count_cb c ts)"
  "count_cb c (ts @ us) = count_cb c ts + count_cb c us"
  by (simp_all add: count_cb_def)

lemma count_cb_remove1:
  "t \<in> set ts \<Longrightarrow> count_cb c (remove1 t ts) + (if snd t = c then 1 else 0) = count_cb c ts"
  by (induction ts) auto

lemma list_all_remove1: "list_all P ts \<Longrightarrow> list_all P (remove1 t ts)"
  by (induction ts) auto

lemma list_all_later:
  "list_all (\<lambda>tm. fst tm \<le> n + timer_delay (snd tm)) ts \<Longrightarrow> n \<le> n' \<Longrightarrow>
   list_all (\<lambda>tm. fst tm \<le> n' + timer_delay (snd tm)) ts"
  by (induction ts) auto

lemma queue_inv_initial: "queue_inv initial_world"
  by (simp add: queue_inv_def initial_world_def)

lemma queue_inv_now:
  assumes "queue_inv w"
  shows "queue_inv (w\<lparr>now := max (now w) T\<rparr>)"
proof -
  from assms have "list_all (\<lambda>tm. fst tm \<le> now w + timer_delay (snd tm)) (timers w)"
    by (simp add: queue_inv_def)
  then have "list_all (\<lambda>tm. fst tm \<le> max (now w) T + timer_delay (snd tm)) (timers w)"
    by (rule list_all_later) simp
  with assms show ?thesis by (simp add: queue_inv_def)
qed

lemma queue_inv_fire:
  assumes "queue_inv w" "tm \<in> set (timers w)"
  shows "queue_inv (fire tm w)"
proof -
  obtain d cb where tm: "tm = (d, cb)" by (cases tm)
  note r1 = count_cb_remove1[OF assms(2), of ResumeSubmit]
  note r2 = count_cb_remove1[OF assms(2), of ResetForm]
  from assms(1) have "list_all (\<lambda>tm. fst tm \<le> now w + timer_delay (snd tm)) (timers w)"
    by (simp add: queue_inv_def)
  then have "list_all (\<lambda>tm. fst tm \<le> max (now w) d + timer_delay (snd tm)) (timers w)"
    by (rule list_all_later) simp
  then have l: "list_all (\<lambda>tm. fst tm \<le> max (now w) d + timer_delay (snd tm))
                  (remove1 tm (timers w))"
    by (rule list_all_remove1)
  show ?thesis
  proof (cases cb)
    case ResumeSubmit
    with assms(1) r1 r2 l tm show ?thesis
      by (simp add: queue_inv_def fire_def handleSubmit_resumed_def)
  next
    case ResetForm
    with assms(1) r1 r2 l tm show ?thesis
      by (simp add: queue_inv_def fire_def resetForm_def)
  qed
qed

lemma queue_inv_advance: "queue_inv w \<Longrightarrow> queue_inv (advance_to T w)"
proof (induction T w rule: advance_to.induct)
  case (1 t w)
  show ?case
  proof (cases "next_timer (timers w)")
    case None
    then show ?thesis using queue_inv_now[OF "1.prems"] by (simp add: advance_to.simps[of t w])
  next
    case (Some tm)
    show ?thesis
    proof (cases "fst tm \<le> t")
      case True
      have "queue_inv (fire tm w)"
        using "1.prems" next_timer_mem[OF Some] by (rule queue_inv_fire)
      from "1.IH"[OF Some True this] show ?thesis
        using Some True by (simp add: advance_to.simps[of t w])
    next
      case False
      then show ?thesis using Some queue_inv_now[OF "1.prems"]
        by (simp add: advance_to.simps[of t w])
    qed
  qed
qed

lemma queue_inv_handleSubmit: "queue_inv w \<Longrightarrow> queue_inv (handleSubmit w)"
  by (simp add: queue_inv_def handleSubmit_def)

lemma queue_inv_handleInputChange: "queue_inv w \<Longrightarrow> queue_inv (handleInputChange e w)"
  by (simp add: queue_inv_def handleInputChange_def)

lemma queue_inv_deliver: "queue_inv w \<Longrightarrow> queue_inv (deliver e w)"
proof (cases e)
  case (Change n v)
  assume "queue_inv w"
  with Change show ?thesis
    by (auto simp: queue_inv_handleInputChange split: card_content.splits)
next
  case Submit
  assume "queue_inv w"
  with Submit show ?thesis
    by (auto simp: queue_inv_handleSubmit split: card_content.splits)
next
  case (Wait d)
  assume "queue_inv w"
  with Wait show ?thesis by (simp add: queue_inv_advance)
qed

lemma queue_inv_run: "queue_inv w \<Longrightarrow> queue_inv (run es w)"
  by (induction es arbitrary: w) (simp_all add: queue_inv_deliver)

lemma phase_inv_timers:
  "phase_inv w \<Longrightarrow> length (timers w) \<le> 1 \<and> (\<forall>tm \<in> set (timers w). now w < fst tm)"
  by (auto simp: phase_inv_def idle_def sending_def showing_def)

text \<open>
  Claim C3, amended. The asynchronous behaviour of the source is the two timers that
  \<^verbatim>\<open>handleSubmit\<close> sets in the contact page, each with a fixed delay: 2000 ms that
  simulate the submission and then 3000 ms until the form resets. In every reachable
  world at most one timer is pending, and it is due within its delay; no timer is
  cancelled or lost (every submission's delay timer is pending or has fired, and every
  completed delay's reset timer is pending or has fired); the pieces of \<^verbatim>\<open>handleSubmit\<close>
  schedule exactly these timers and the other handler and callback schedule none. All of
  them are total functions on worlds: there is no error result. The handlers of
  Navigation change nothing outside \<^verbatim>\<open>isOpen\<close>, and the elements of BlogsPage, HomePage
  and Footer carry no handler at all.
\<close>

theorem two_fixed_delay_timers_never_cancelled:
  fixes s :: "'a navigation_state_scheme"
  assumes "w = run es initial_world"
  shows "length (timers w) \<le> 1
       \<and> (\<forall>tm \<in> set (timers w). now w < fst tm \<and> fst tm \<le> now w + timer_delay (snd tm))
       \<and> count_cb ResumeSubmit (fired w) + count_cb ResumeSubmit (timers w) = submissions w
       \<and> count_cb ResetForm (fired w) + count_cb ResetForm (timers w)
           = count_cb ResumeSubmit (fired w)
       \<and> timers (handleSubmit v) = timers v @ [(now v + 2000, ResumeSubmit)]
       \<and> timers (handleSubmit_resumed v) = timers v @ [(now v + 3000, ResetForm)]
       \<and> timers (resetForm v) = timers v
       \<and> timers (handleInputChange e v) = timers v
       \<and> navigation_state.more (click (button_onClick (menu_button (Navigation p s))) s)
           = navigation_state.more s
       \<and> (\<forall>links social. mobile_menu (Navigation p s) = Some (links, social) \<longrightarrow>
             (\<forall>l \<in> set (links @ social).
                navigation_state.more (click (link_onClick l) s) = navigation_state.more s))
       \<and> (\<forall>b \<in> set (category_buttons (BlogsPage p h :: 's blogs_view)). button_onClick b = None)
       \<and> button_onClick (hero_button (HomePage p :: 's home_view)) = None
       \<and> link_onClick (hero_link (HomePage p :: 's home_view)) = None
       \<and> (\<forall>l \<in> set (footer_links (Footer p :: 's footer_view) @ footer_social (Footer p)).
             link_onClick l = None)"
proof -
  have p: "phase_inv w" unfolding assms by (rule reachable_phase_inv)
  have q: "queue_inv w" unfolding assms by (rule queue_inv_run[OF queue_inv_initial])
  from q have u: "\<forall>tm \<in> set (timers w). fst tm \<le> now w + timer_delay (snd tm)"
    by (simp add: queue_inv_def list_all_iff)
  have a: "length (timers w) \<le> 1"
    "\<forall>tm \<in> set (timers w). now w < fst tm \<and> fst tm \<le> now w + timer_delay (snd tm)"
    using phase_inv_timers[OF p] u by blast+
  have b: "count_cb ResumeSubmit (fired w) + count_cb ResumeSubmit (timers w) = submissions w"
    "count_cb ResetForm (fired w) + count_cb ResetForm (timers w) = count_cb ResumeSubmit (fired w)"
    using q by (simp_all add: queue_inv_def)
  have c: "timers (handleSubmit v) = timers v @ [(now v + 2000, ResumeSubmit)]"
    "timers (handleSubmit_resumed v) = timers v @ [(now v + 3000, ResetForm)]"
    "timers (resetForm v) = timers v"
    "timers (handleInputChange e v) = timers v"
    by (simp_all add: handleSubmit_def handleSubmit_resumed_def resetForm_def handleInputChange_def)
  have d: "navigation_state.more (click (button_onClick (menu_button (Navigation p s))) s)
           = navigation_state.more s"
    "\<forall>links social. mobile_menu (Navigation p s) = Some (links, social) \<longrightarrow>
             (\<forall>l \<in> set (links @ social).
                navigation_state.more (click (link_onClick l) s) = navigation_state.more s)"
    by (auto simp: Navigation_def setIsOpen_def navItems_def socialLinks_def)
  have e: "\<forall>b \<in> set (category_buttons (BlogsPage p h :: 's blogs_view)). button_onClick b = None"
    "button_onClick (hero_button (HomePage p :: 's home_view)) = None"
    "link_onClick (hero_link (HomePage p :: 's home_view)) = None"
    "\<forall>l \<in> set (footer_links (Footer p :: 's footer_view) @ footer_social (Footer p)).
             link_onClick l = None"
    by (auto simp: BlogsPage_def HomePage_def Footer_def socialLinks_def)
  from a b c d e show ?thesis by blast
qed

theorem two_fixed_delay_timers_never_cancelled_witness:
  "timers (run [Submit] initial_world) = [(2000, ResumeSubmit)]
   \<and> submissions (run [Submit] initial_world) = 1
   \<and> count_cb ResumeSubmit (fired (run [Submit] initial_world)) = 0"
proof -
  have t: "timers (run [Submit] initial_world) = [(2000, ResumeSubmit)]"
    by (simp add: initial_world_def ContactPage_card_def handleSubmit_def)
  note th = two_fixed_delay_timers_never_cancelled[OF refl, where es = "[Submit]"]
  note acc = th[THEN conjunct2, THEN conjunct2, THEN conjunct1]
  have s: "submissions (run [Submit] initial_world) = 1"
    by (simp add: initial_world_def ContactPage_card_def handleSubmit_def)
  from acc have "count_cb ResumeSubmit (fired (run [Submit] initial_world)) = 0"
    unfolding t s by simp
  with t s show ?thesis by blast
qed

text \<open>
  Claim C3 as stated speaks of one timer, the one that simulates the latency. When that
  timer has fired (2000 ms after the submission) a second timer is pending, due at
  5000 ms, and its callback is the reset: it takes the success message away again.
\<close>

theorem reset_timer_is_a_second_timer:
  "timers (run [Submit, Wait 2000] initial_world) = [(5000, ResetForm)]
   \<and> fired (run [Submit, Wait 2000] initial_world) = [(2000, ResumeSubmit)]
   \<and> isSubmitted (run [Submit, Wait 2000] initial_world)
   \<and> \<not> isSubmitted (run [Submit, Wait 2000, Wait 3000] initial_world)"
proof -
  have i: "idle initial_world" by (simp add: idle_def initial_world_def)
  have n: "now initial_world = 0" "fired initial_world = []"
    by (simp_all add: initial_world_def)
  from run_submit_mid[OF i, of "[Wait 2000]"] obtain fd where
    "run (Submit # [Wait 2000]) initial_world =
       initial_world\<lparr>formData := fd, now := now initial_world + elapsed [Wait 2000],
         isSubmitting := False, isSubmitted := True,
         timers := [(now initial_world + 5000, ResetForm)],
         fired := fired initial_world @ [(now initial_world + 2000, ResumeSubmit)],
         submissions := Suc (submissions initial_world)\<rparr>"
    by auto
  then have a: "timers (run [Submit, Wait 2000] initial_world) = [(5000, ResetForm)]"
    "fired (run [Submit, Wait 2000] initial_world) = [(2000, ResumeSubmit)]"
    "isSubmitted (run [Submit, Wait 2000] initial_world)"
    unfolding n by simp_all
  have "run (Submit # [Wait 2000] @ [Wait 3000]) initial_world =
     initial_world\<lparr>formData := initialFormData,
       now := now initial_world + elapsed [Wait 2000] + 3000,
       isSubmitting := False, isSubmitted := False, timers := [],
       fired := fired initial_world
         @ [(now initial_world + 2000, ResumeSubmit), (now initial_world + 5000, ResetForm)],
       submissions := Suc (submissions initial_world)\<rparr>"
    by (rule run_submit_reset[OF i]) simp_all
  then have b: "\<not> isSubmitted (run [Submit, Wait 2000, Wait 3000] initial_world)"
    by simp
  from a b show ?thesis by blast
qed

end
